theory Spec2Isabelle
  imports Complex_Main "HOL-Library.Log_Nat"
begin

section \<open>JavaScript values used by the adapter\<close>

text \<open>
  Strings are lists of code units; the model covers the code units U+0000..U+00FF, one
  \<^typ>\<open>char\<close> each. An optional field (\<open>field?: string\<close>, or an environment variable) is a
  \<^typ>\<open>string option\<close>, \<open>None\<close> being \<open>undefined\<close>. A condition \<open>if (s)\<close> on such a field
  holds when the field is defined and not the empty string.
\<close>

definition truthy :: "string option \<Rightarrow> bool" where
  "truthy v = (case v of None \<Rightarrow> False | Some s \<Rightarrow> s \<noteq> [])"

text \<open>\<open>a || b\<close> on an optional string and a default.\<close>

definition or_else :: "string option \<Rightarrow> string \<Rightarrow> string" where
  "or_else v d = (case v of None \<Rightarrow> d | Some s \<Rightarrow> if s = [] then d else s)"

text \<open>Every value thrown in the code is an \<open>Error\<close> object; only its message is observed.\<close>

datatype error = Error string

fun error_message :: "error \<Rightarrow> string" where
  "error_message (Error m) = m"

subsection \<open>String operations\<close>

definition char_code :: "char \<Rightarrow> nat" where
  "char_code c = of_char c"

text \<open>
  \<open>String.prototype.toLowerCase\<close> on the code units of the model: A-Z and the upper-case
  letters U+00C0..U+00DE (without the multiplication sign U+00D7) move up by 32, which sets
  bit 5 of the code unit.
\<close>

definition lower_char :: "char \<Rightarrow> char" where
  "lower_char c =
     (let n = char_code c
      in if (65 \<le> n \<and> n \<le> 90) \<or> (192 \<le> n \<and> n \<le> 222 \<and> n \<noteq> 215)
         then (case c of Char b0 b1 b2 b3 b4 b5 b6 b7 \<Rightarrow> Char b0 b1 b2 b3 b4 True b6 b7)
         else c)"

definition toLowerCase :: "string \<Rightarrow> string" where
  "toLowerCase s = map lower_char s"

text \<open>White space and line terminators (\<open>\s\<close>, and what \<open>trim\<close> removes): TAB, LF, VT, FF, CR,
  space and the no-break space.\<close>

definition is_space :: "char \<Rightarrow> bool" where
  "is_space c = (char_code c \<in> {9, 10, 11, 12, 13, 32, 160})"

definition trim :: "string \<Rightarrow> string" where
  "trim s = rev (dropWhile is_space (rev (dropWhile is_space s)))"

definition is_digit :: "char \<Rightarrow> bool" where
  "is_digit c = (48 \<le> char_code c \<and> char_code c \<le> 57)"

definition startsWith :: "string \<Rightarrow> string \<Rightarrow> bool" where
  "startsWith s p = (take (length p) s = p)"

text \<open>Line terminators, which \<open>.\<close> in a regular expression does not match.\<close>

definition is_line_terminator :: "char \<Rightarrow> bool" where
  "is_line_terminator c = (char_code c \<in> {10, 13})"

text \<open>\<open>s.replace(/^data:.*?;base64,/, '')\<close>: the shortest prefix \<open>data:...;base64,\<close> without a
  line terminator is removed.\<close>

fun after_base64_marker :: "string \<Rightarrow> string option" where
  "after_base64_marker [] = None"
| "after_base64_marker (c # t) =
     (if startsWith (c # t) '';base64,'' then Some (drop 8 (c # t))
      else if is_line_terminator c then None
      else after_base64_marker t)"

definition strip_data_uri :: "string \<Rightarrow> string" where
  "strip_data_uri s =
     (if startsWith s ''data:''
      then (case after_base64_marker (drop 5 s) of Some rest \<Rightarrow> rest | None \<Rightarrow> s)
      else s)"

text \<open>\<open>s.indexOf(c)\<close> and \<open>s.substring(start, end)\<close>.\<close>

fun indexOf :: "string \<Rightarrow> char \<Rightarrow> int" where
  "indexOf [] c = - 1"
| "indexOf (x # xs) c =
     (if x = c then 0 else (let i = indexOf xs c in if i < 0 then - 1 else i + 1))"

definition substring :: "string \<Rightarrow> int \<Rightarrow> int \<Rightarrow> string" where
  "substring s from to =
     (let n = int (length s);
          a = max 0 (min from n); b = max 0 (min to n);
          lo = min a b; hi = max a b
      in take (nat (hi - lo)) (drop (nat lo) s))"

text \<open>\<open>s.includes(p)\<close>.\<close>

fun includes_str :: "string \<Rightarrow> string \<Rightarrow> bool" where
  "includes_str [] p = (p = [])"
| "includes_str (c # t) p = (startsWith (c # t) p \<or> includes_str t p)"

text \<open>\<open>s.split(sep)\<close> for a one-character separator.\<close>

fun split_on :: "char \<Rightarrow> string \<Rightarrow> string list" where
  "split_on sep [] = [[]]"
| "split_on sep (c # t) =
     (if c = sep then [] # split_on sep t
      else (case split_on sep t of
              [] \<Rightarrow> [[c]]
            | w # ws \<Rightarrow> (c # w) # ws))"

text \<open>\<open>s.split('/')[1]\<close>; \<open>None\<close> is \<open>undefined\<close>.\<close>

definition second_segment :: "string \<Rightarrow> string option" where
  "second_segment s = (case split_on CHR ''/'' s of a # b # _ \<Rightarrow> Some b | _ \<Rightarrow> None)"

text \<open>The first match of \<open>/https?:\/\/[^\s]+/\<close>.\<close>

definition url_at_head :: "string \<Rightarrow> string option" where
  "url_at_head s =
     (if startsWith s ''https://'' \<and> takeWhile (\<lambda>c. \<not> is_space c) (drop 8 s) \<noteq> []
      then Some (''https://'' @ takeWhile (\<lambda>c. \<not> is_space c) (drop 8 s))
      else if startsWith s ''http://'' \<and> takeWhile (\<lambda>c. \<not> is_space c) (drop 7 s) \<noteq> []
      then Some (''http://'' @ takeWhile (\<lambda>c. \<not> is_space c) (drop 7 s))
      else None)"

fun match_url :: "string \<Rightarrow> string option" where
  "match_url [] = None"
| "match_url (c # t) =
     (case url_at_head (c # t) of Some u \<Rightarrow> Some u | None \<Rightarrow> match_url t)"

text \<open>The group of the first match of \<open>/data:image\/(.*?);/\<close>.\<close>

definition mime_at_head :: "string \<Rightarrow> string option" where
  "mime_at_head s =
     (if startsWith s ''data:image/''
      then (let rest = drop 11 s;
                g = takeWhile (\<lambda>c. c \<noteq> CHR '';'' \<and> \<not> is_line_terminator c) rest
            in case drop (length g) rest of
                 [] \<Rightarrow> None
               | c # _ \<Rightarrow> if c = CHR '';'' then Some g else None)
      else None)"

fun match_mime :: "string \<Rightarrow> string option" where
  "match_mime [] = None"
| "match_mime (c # t) =
     (case mime_at_head (c # t) of Some g \<Rightarrow> Some g | None \<Rightarrow> match_mime t)"

text \<open>Decimal digits of a natural number, and of an integer.\<close>

function digits :: "nat \<Rightarrow> string" where
  "digits n = (if n < 10 then [''0123456789'' ! n]
               else digits (n div 10) @ [''0123456789'' ! (n mod 10)])"
  by pat_completeness auto
termination
  by (relation "measure (\<lambda>n. n)") auto

declare digits.simps [simp del]

definition show_int :: "int \<Rightarrow> string" where
  "show_int i = (if i < 0 then CHR ''-'' # digits (nat (- i)) else digits (nat i))"

text \<open>The value of a string of decimal digits.\<close>

definition digits_value :: "string \<Rightarrow> nat" where
  "digits_value ds = foldl (\<lambda>acc c. 10 * acc + (char_code c - 48)) 0 ds"

subsection \<open>Numbers\<close>

text \<open>
  A JavaScript number is an IEEE 754 double. The finite ones are modelled by their exact
  rational value (zero is unsigned); \<open>fl\<close> rounds a rational to the nearest double, ties to
  even, with gradual underflow below \<open>2^-1022\<close> and overflow to an infinity from \<open>2^1024\<close>.
  The result of each arithmetic operation is the rounded exact result.
\<close>

datatype number = Num rat | PosInf | NegInf | NaN

definition pow2 :: "int \<Rightarrow> rat" where
  "pow2 k = (if 0 \<le> k then 2 ^ nat k else 1 / 2 ^ nat (- k))"

definition ilog2 :: "rat \<Rightarrow> int" where
  "ilog2 x = (let (p, q) = quotient_of x;
                  d = int (floorlog 2 (nat p)) - int (floorlog 2 (nat q))
              in if pow2 d \<le> x then d else d - 1)"

definition round_half_even :: "rat \<Rightarrow> int" where
  "round_half_even y =
     (let n = \<lfloor>y\<rfloor>; f = y - of_int n
      in if f < 1 / 2 then n else if 1 / 2 < f then n + 1 else if even n then n else n + 1)"

definition fl :: "rat \<Rightarrow> number" where
  "fl x = (if x = 0 then Num 0
           else let k = max (ilog2 \<bar>x\<bar> - 52) (- 1074);
                    y = of_int (round_half_even (\<bar>x\<bar> / pow2 k)) * pow2 k
                in if pow2 1024 \<le> y then (if 0 < x then PosInf else NegInf)
                   else Num (sgn x * y))"

fun num_div :: "number \<Rightarrow> number \<Rightarrow> number" where
  "num_div NaN _ = NaN"
| "num_div _ NaN = NaN"
| "num_div (Num x) (Num y) =
     (if y = 0 then (if x = 0 then NaN else if 0 < x then PosInf else NegInf) else fl (x / y))"
| "num_div (Num x) _ = Num 0"
| "num_div PosInf (Num y) = (if 0 \<le> y then PosInf else NegInf)"
| "num_div NegInf (Num y) = (if 0 \<le> y then NegInf else PosInf)"
| "num_div _ _ = NaN"

fun num_mul :: "number \<Rightarrow> number \<Rightarrow> number" where
  "num_mul NaN _ = NaN"
| "num_mul _ NaN = NaN"
| "num_mul (Num x) (Num y) = fl (x * y)"
| "num_mul (Num x) PosInf = (if x = 0 then NaN else if 0 < x then PosInf else NegInf)"
| "num_mul (Num x) NegInf = (if x = 0 then NaN else if 0 < x then NegInf else PosInf)"
| "num_mul PosInf (Num y) = (if y = 0 then NaN else if 0 < y then PosInf else NegInf)"
| "num_mul NegInf (Num y) = (if y = 0 then NaN else if 0 < y then NegInf else PosInf)"
| "num_mul PosInf PosInf = PosInf"
| "num_mul NegInf NegInf = PosInf"
| "num_mul _ _ = NegInf"

fun num_sub :: "number \<Rightarrow> number \<Rightarrow> number" where
  "num_sub NaN _ = NaN"
| "num_sub _ NaN = NaN"
| "num_sub (Num x) (Num y) = fl (x - y)"
| "num_sub (Num x) PosInf = NegInf"
| "num_sub (Num x) NegInf = PosInf"
| "num_sub PosInf PosInf = NaN"
| "num_sub NegInf NegInf = NaN"
| "num_sub PosInf _ = PosInf"
| "num_sub NegInf _ = NegInf"

fun num_abs :: "number \<Rightarrow> number" where
  "num_abs (Num x) = Num \<bar>x\<bar>"
| "num_abs NaN = NaN"
| "num_abs _ = PosInf"

text \<open>\<open>a < b\<close>; every comparison with \<open>NaN\<close> is false.\<close>

fun num_less :: "number \<Rightarrow> number \<Rightarrow> bool" where
  "num_less NaN _ = False"
| "num_less _ NaN = False"
| "num_less (Num x) (Num y) = (x < y)"
| "num_less _ NegInf = False"
| "num_less PosInf _ = False"
| "num_less _ _ = True"

text \<open>\<open>a >= b\<close>.\<close>

fun num_ge :: "number \<Rightarrow> number \<Rightarrow> bool" where
  "num_ge NaN _ = False"
| "num_ge _ NaN = False"
| "num_ge a b = (\<not> num_less a b)"

text \<open>\<open>Math.round\<close>: the nearest integer, a tie going up.\<close>

fun Math_round :: "number \<Rightarrow> number" where
  "Math_round (Num x) = Num (of_int \<lfloor>x + 1 / 2\<rfloor>)"
| "Math_round n = n"

text \<open>
  \<open>parseInt\<close> on a string of decimal digits: the double nearest to its value. (For more than
  20 significant digits the language lets an implementation round the digits first.)
\<close>

definition parseInt :: "string \<Rightarrow> number" where
  "parseInt ds = fl (of_nat (digits_value ds))"

text \<open>
  The string of a number in a template literal. Integral values print in decimal, as they
  do in JavaScript below \<open>10^21\<close>; every width and height built by the resolver is an
  integer between 0 and 1024 or \<open>NaN\<close>. For a value with a fraction only the integer part is
  given here: no such value reaches this function, and no statement below relies on it.
\<close>

fun Number_toString :: "number \<Rightarrow> string" where
  "Number_toString (Num x) = show_int \<lfloor>x\<rfloor>"
| "Number_toString PosInf = ''Infinity''"
| "Number_toString NegInf = ''-Infinity''"
| "Number_toString NaN = ''NaN''"

section \<open>Aspect-Ratio Resolver (\<open>utils/aspect-ratio.ts\<close>)\<close>

record AspectRatioConfig =
  width :: number
  height :: number
  name :: string

definition ASPECT_RATIOS :: "(string \<times> AspectRatioConfig) list" where
  "ASPECT_RATIOS =
     [(''1:1'', \<lparr>width = Num 1024, height = Num 1024, name = ''square''\<rparr>),
      (''square'', \<lparr>width = Num 1024, height = Num 1024, name = ''square''\<rparr>),
      (''16:9'', \<lparr>width = Num 1024, height = Num 576, name = ''landscape''\<rparr>),
      (''landscape'', \<lparr>width = Num 1024, height = Num 576, name = ''landscape''\<rparr>),
      (''9:16'', \<lparr>width = Num 576, height = Num 1024, name = ''portrait''\<rparr>),
      (''portrait'', \<lparr>width = Num 576, height = Num 1024, name = ''portrait''\<rparr>),
      (''4:3'', \<lparr>width = Num 1024, height = Num 768, name = ''4:3''\<rparr>),
      (''3:4'', \<lparr>width = Num 768, height = Num 1024, name = ''3:4''\<rparr>),
      (''16:10'', \<lparr>width = Num 1024, height = Num 640, name = ''widescreen''\<rparr>),
      (''widescreen'', \<lparr>width = Num 1024, height = Num 640, name = ''widescreen''\<rparr>),
      (''21:9'', \<lparr>width = Num 1024, height = Num 439, name = ''ultrawide''\<rparr>),
      (''ultrawide'', \<lparr>width = Num 1024, height = Num 439, name = ''ultrawide''\<rparr>),
      (''2:1'', \<lparr>width = Num 1024, height = Num 512, name = ''panoramic''\<rparr>),
      (''panoramic'', \<lparr>width = Num 1024, height = Num 512, name = ''panoramic''\<rparr>)]"

text \<open>
  \<open>ASPECT_RATIOS\<close> is an object literal, so \<open>ASPECT_RATIOS[key]\<close> also finds the properties
  that every object inherits from \<open>Object.prototype\<close>. Their values are functions or objects
  (all truthy), not descriptors.
\<close>

definition Object_prototype_keys :: "string list" where
  "Object_prototype_keys =
     [''constructor'', ''__defineGetter__'', ''__defineSetter__'', ''hasOwnProperty'',
      ''__lookupGetter__'', ''__lookupSetter__'', ''isPrototypeOf'', ''propertyIsEnumerable'',
      ''toString'', ''valueOf'', ''__proto__'', ''toLocaleString'']"

text \<open>
  A truthy result of the resolver: a descriptor, or one of the inherited built-in objects
  (which has no \<open>width\<close> and no \<open>height\<close>, and no \<open>name\<close> that the code below tests for).
  The resolver's \<open>null\<close> is \<open>None\<close>.
\<close>

datatype config_value = Descriptor AspectRatioConfig | Builtin_object

text \<open>The regular expression \<open>/^(\d+):(\d+)$/\<close>, giving the two groups.\<close>

definition match_ratio :: "string \<Rightarrow> (string \<times> string) option" where
  "match_ratio s =
     (let g1 = takeWhile is_digit s
      in case dropWhile is_digit s of
           [] \<Rightarrow> None
         | c # g2 \<Rightarrow>
             if c = CHR '':'' \<and> g1 \<noteq> [] \<and> g2 \<noteq> [] \<and> list_all is_digit g2
             then Some (g1, g2) else None)"

definition parseAspectRatio :: "string option \<Rightarrow> config_value option" where
  "parseAspectRatio ratio =
     (case ratio of
        None \<Rightarrow> None
      | Some r \<Rightarrow>
          if r = [] then None
          else
            let normalized = trim (toLowerCase r)
            in case map_of ASPECT_RATIOS normalized of
                 Some cfg \<Rightarrow> Some (Descriptor cfg)
               | None \<Rightarrow>
                   if normalized \<in> set Object_prototype_keys then Some Builtin_object
                   else
                     (case match_ratio r of
                        Some (g1, g2) \<Rightarrow>
                          let w = parseInt g1; h = parseInt g2;
                              aspectRatio = num_div w h
                          in if num_ge aspectRatio (Num 1)
                             then Some (Descriptor
                                    \<lparr>width = Num 1024,
                                     height = Math_round (num_div (Num 1024) aspectRatio),
                                     name = r\<rparr>)
                             else Some (Descriptor
                                    \<lparr>width = Math_round (num_mul (Num 1024) aspectRatio),
                                     height = Num 1024,
                                     name = r\<rparr>)
                      | None \<Rightarrow> None))"

text \<open>The properties of a truthy resolver result as the code reads them: a missing
  \<open>width\<close> or \<open>height\<close> is \<open>undefined\<close>, which is \<open>NaN\<close> in arithmetic.\<close>

fun width_of :: "config_value \<Rightarrow> number" where
  "width_of (Descriptor c) = width c"
| "width_of Builtin_object = NaN"

fun height_of :: "config_value \<Rightarrow> number" where
  "height_of (Descriptor c) = height c"
| "height_of Builtin_object = NaN"

fun name_is :: "config_value \<Rightarrow> string \<Rightarrow> bool" where
  "name_is (Descriptor c) n = (name c = n)"
| "name_is Builtin_object n = False"

definition blankImages :: "(string \<times> string) list" where
  "blankImages =
     [(''square'', ''iVBORw0KGgoAAAANSUhEUgAAAGQAAABkCAIAAAD/gAIDAAAAaklEQVR42u3QMQEAAAjAoNm/tCU8HAAA4NMCriwAAysLzMAKAysLzMAKAysLzMAKAysLzMAKAysLzMAKAysLzMAKAysLzMAKAysLzMAKAysLzMAKAysLzMAKAysLzMAKAysL+FoBTL0F3UMHQMAAAAAASUVORK5CYII=''),
      (''landscape'', ''iVBORw0KGgoAAAANSUhEUgAAAKAAAABaCAIAAACOuu7MAAAAaklEQVR42u3QIQEAAAjAoNm/tDP8DwAAAAAAAAAAfKTBOjgAAAAAAAAAAAAAAAAAAAAAAAAAAAAAAAAAAAAAAAAAAAAAAAAAAAAAAAAAAAAAAAAAAAAAAAAAAAAAAAAAAMBbAdW1BN0ZvW8UAAAAAElFTkSuQmCC''),
      (''portrait'', ''iVBORw0KGgoAAAANSUhEUgAAAFoAAACgCAIAAAAaBO6CAAAAaklEQVR42u3QMQEAAAjAoNm/tBf8DgAAAAAAAAAAAAAAAAAAfFSHDgAAAAAAAAAAAAAAAAAAAAAAAAAAAAAAAAAAAAAAAAAAAAAAAAAAAAAAAAAAAAAAAAAAAP7VAaxDBbwC3cFJNbQKAAAAAElFTkSuQmCC''),
      (''widescreen'', ''iVBORw0KGgoAAAANSUhEUgAAAKAAAABkCAIAAACO3jADAAAAaklEQVR42u3QIQEAAAjAoNm/tDP8DwAAAAAAAAAAAADfaTAOAAAAAAAAAAAAAAAAAAAAAAAAAAAAAAAAAAAAAAAAAAAAAAAAAAAAAAAAAAAAAAAAAAAAAAAAAN4CoP0E3T6XVXsAAAAASUVORK5CYII=''),
      (''default'', ''iVBORw0KGgoAAAANSUhEUgAAAGQAAABkCAIAAAD/gAIDAAAAaklEQVR42u3QMQEAAAjAoNm/tCU8HAAA4NMCriwAAysLzMAKAysLzMAKAysLzMAKAysLzMAKAysLzMAKAysLzMAKAysLzMAKAysLzMAKAysLzMAKAysLzMAKAysLzMAKAysLzMAKAysL+FoBTL0F3UMHQMAAAAAASUVORK5CYII='')]"

definition blankImage :: "string \<Rightarrow> string" where
  "blankImage k = or_else (map_of blankImages k) (or_else (map_of blankImages ''default'') [])"

definition generateBlankImageSync :: "config_value \<Rightarrow> string" where
  "generateBlankImageSync config =
     (let aspectRatio = num_div (width_of config) (height_of config);
          imageKey =
            (if name_is config ''square''
                \<or> num_less (num_abs (num_sub aspectRatio (Num 1))) (fl (1 / 10))
             then ''square''
             else if name_is config ''landscape''
                \<or> (num_less (Num (3 / 2)) aspectRatio \<and> num_less aspectRatio (Num 2))
             then ''landscape''
             else if name_is config ''portrait'' \<or> num_less aspectRatio (fl (7 / 10))
             then ''portrait''
             else if name_is config ''widescreen''
                \<or> (num_less (fl (7 / 5)) aspectRatio \<and> num_less aspectRatio (fl (17 / 10)))
             then ''widescreen''
             else if num_less (Num 1) aspectRatio then ''landscape''
             else ''portrait'')
      in blankImage imageKey)"

definition descriptions :: "(string \<times> string) list" where
  "descriptions =
     [(''square'', ''square format (1:1 aspect ratio)''),
      (''landscape'', ''landscape orientation (16:9 aspect ratio)''),
      (''portrait'', ''portrait orientation (9:16 aspect ratio)''),
      (''widescreen'', ''widescreen format (16:10 aspect ratio)''),
      (''ultrawide'', ''ultrawide format (21:9 aspect ratio)''),
      (''panoramic'', ''panoramic format (2:1 aspect ratio)'')]"

text \<open>
  \<open>descriptions[config.name] || `${config.width}x${config.height} aspect ratio`\<close>. The
  names a descriptor can carry are the table's and digit-colon-digit strings, none of which
  is an inherited property of the \<open>descriptions\<close> object; for a built-in object both
  dimensions print as \<open>undefined\<close>.
\<close>

fun getAspectRatioPrompt :: "config_value \<Rightarrow> string" where
  "getAspectRatioPrompt (Descriptor c) =
     or_else (map_of descriptions (name c))
       (Number_toString (width c) @ ''x'' @ Number_toString (height c) @ '' aspect ratio'')"
| "getAspectRatioPrompt Builtin_object = ''undefinedxundefined aspect ratio''"

section \<open>Request arguments (\<open>types.ts\<close>)\<close>

text \<open>
  A reference image; each source field is optional. (The interface declared in
  \<open>types.ts\<close> has no \<open>path\<close>; the tool's input schema and the Gemini adapter have.)
\<close>

record ImageInput =
  path :: "string option"
  url :: "string option"
  base64 :: "string option"
  mimeType :: "string option"
  description :: "string option"

datatype ScenarioType =
    Text_to_image | Style_transfer | Character_design | Pose_modification
  | Background_expansion | Multi_reference | Cross_view | Ar_overlay | Photo_enhancement

fun scenario_string :: "ScenarioType \<Rightarrow> string" where
  "scenario_string Text_to_image = ''text-to-image''"
| "scenario_string Style_transfer = ''style-transfer''"
| "scenario_string Character_design = ''character-design''"
| "scenario_string Pose_modification = ''pose-modification''"
| "scenario_string Background_expansion = ''background-expansion''"
| "scenario_string Multi_reference = ''multi-reference''"
| "scenario_string Cross_view = ''cross-view''"
| "scenario_string Ar_overlay = ''ar-overlay''"
| "scenario_string Photo_enhancement = ''photo-enhancement''"

text \<open>
  The fields of \<open>ImageGenerationArgs\<close> that the adapters read. \<open>sample_count\<close> is an integer
  (the input schema declares \<open>integer\<close>, 1 to 4).
\<close>

record ImageGenerationArgs =
  prompt :: string
  images :: "ImageInput list option"
  scenario :: "ScenarioType option"
  aspect_ratio :: "string option"
  negative_prompt :: "string option"
  sample_count :: "int option"

section \<open>Prompt Composer (\<open>buildPrompt\<close>)\<close>

text \<open>
  \<open>buildPrompt\<close> and \<open>enhancePromptForScenario\<close> are private methods of both provider
  classes, with the same text in both; one definition stands for the two.
\<close>

definition enhancements :: "(string \<times> string) list" where
  "enhancements =
     [(''style-transfer'', ''Apply the artistic style from the reference image(s) to: ''),
      (''character-design'',
         ''Create a character design sheet showing multiple views and poses for: ''),
      (''pose-modification'',
         ''Modify the pose of the subject while maintaining their appearance: ''),
      (''background-expansion'',
         ''Expand or modify the background while keeping the main subject: ''),
      (''multi-reference'', ''Combine elements from all reference images to create: ''),
      (''cross-view'', ''Generate different viewing angles or perspectives of: ''),
      (''ar-overlay'', ''Add augmented reality information overlays to: ''),
      (''photo-enhancement'', ''Enhance and improve the quality of: '')]"

definition enhancePromptForScenario :: "string \<Rightarrow> ScenarioType \<Rightarrow> string" where
  "enhancePromptForScenario p sc = or_else (map_of enhancements (scenario_string sc)) [] @ p"

definition buildPrompt :: "ImageGenerationArgs \<Rightarrow> config_value option \<Rightarrow> string" where
  "buildPrompt args aspectRatioConfig =
     (let p0 = prompt args;
          p1 = (case scenario args of
                  None \<Rightarrow> p0
                | Some sc \<Rightarrow> enhancePromptForScenario p0 sc);
          p2 = (case aspectRatioConfig of
                  None \<Rightarrow> p1
                | Some c \<Rightarrow> p1 @ '' Generate the image to fill the entire ''
                              @ getAspectRatioPrompt c @ '' canvas provided by the blank image.'');
          p3 = (if truthy (negative_prompt args)
                then p2 @ '' Avoid: '' @ the (negative_prompt args) @ ''.''
                else p2)
      in case sample_count args of
           None \<Rightarrow> p3
         | Some n \<Rightarrow> if n \<noteq> 0 \<and> 1 < n
                     then ''Generate '' @ show_int n @ '' variations of: '' @ p3
                     else p3)"

section \<open>Provider adapters\<close>

subsection \<open>Credentials\<close>

text \<open>
  Each provider object reads its credential from the environment in its constructor and
  keeps it in \<open>apiKey\<close>; \<open>isAvailable\<close> is \<open>!!this.apiKey\<close>.
\<close>

record provider_instance =
  apiKey :: "string option"

definition isAvailable :: "provider_instance \<Rightarrow> bool" where
  "isAvailable p = truthy (apiKey p)"

subsection \<open>The outside world\<close>

text \<open>
  What the adapters obtain from outside the repository is a parameter of the model: every
  function below is the outcome of one call, \<open>Inl\<close> being the exception it throws.
\<close>

datatype json =
    JNull | JBool bool | JNumber number | JString string
  | JArray "json list" | JObject "(string \<times> json) list"

text \<open>The parts of a Gemini request, and the content blocks of an OpenRouter message.\<close>

datatype part = Text string | Inline_data string string

datatype content_block = Text_block string | Image_url string

datatype request =
    Gemini_request string "part list"
  | OpenRouter_request string "content_block list"

text \<open>The response of the POST: its status, and what \<open>text()\<close> and \<open>json()\<close> give.\<close>

record response =
  status :: nat
  body_text :: "error + string"
  body_json :: "error + json"

definition ok :: "response \<Rightarrow> bool" where
  "ok r = (200 \<le> status r \<and> status r \<le> 299)"

text \<open>The response of fetching an image: \<open>ok\<close>, the body in base64 (or the exception of
  \<open>arrayBuffer()\<close>), and the \<open>content-type\<close> header.\<close>

record image_response =
  image_ok :: bool
  image_base64 :: "error + string"
  content_type :: "string option"

text \<open>
  \<^item> \<open>readImageFileAsBase64\<close> is imported from \<open>utils.ts\<close>, whose text in the repository does not
    define it; it gives the base64 data and the MIME type of a local file.
  \<^item> \<open>fetch_image\<close> is \<open>fetch(url)\<close>, \<open>fetch_post\<close> the POST to the backend.
  \<^item> \<open>jimp_png\<close> is the \<open>try\<close> block of \<open>generateLargeBlankImage\<close>: the Jimp library builds a
    white bitmap of \<open>config.width\<close> by \<open>config.height\<close>, the loops paint its border, and
    \<open>getBuffer\<close> encodes it as PNG, in base64.
  \<^item> \<open>ToString\<close> and \<open>GreaterThanZero\<close> are the engine's conversions of a value that is not a
    string (a number, an array, an object) to a string, and its test \<open>v > 0\<close>.
\<close>

record world =
  readImageFileAsBase64 :: "string \<Rightarrow> error + string \<times> string"
  fetch_image :: "string \<Rightarrow> error + image_response"
  jimp_png :: "config_value \<Rightarrow> error + string"
  fetch_post :: "request \<Rightarrow> error + response"
  ToString :: "json \<Rightarrow> error + string"
  GreaterThanZero :: "json \<Rightarrow> error + bool"

subsection \<open>Canvas Image Synthesizer (\<open>generateLargeBlankImage\<close>)\<close>

text \<open>The method has the same text in both provider classes.\<close>

definition generateLargeBlankImage :: "world \<Rightarrow> config_value \<Rightarrow> string" where
  "generateLargeBlankImage w config =
     (case jimp_png w config of
        Inr png \<Rightarrow> png
      | Inl e \<Rightarrow> generateBlankImageSync config)"

subsection \<open>The normalized result\<close>

datatype image_kind = Base64 | Url

record GeneratedImage =
  kind :: image_kind
  data :: "string option"
  image_url :: "string option"
  format :: "string option"

record usage_counts =
  input_tokens :: "json option"
  output_tokens :: "json option"
  tokens :: "json option"

record GenerationResult =
  success :: bool
  provider :: string
  model :: string
  result_prompt :: string
  result_images :: "GeneratedImage list option"
  message :: "json option"
  usage :: "usage_counts option"
  error :: "string option"

subsection \<open>Reading a parsed response\<close>

text \<open>A value of the response is a \<^typ>\<open>json option\<close>, \<open>None\<close> being \<open>undefined\<close>.\<close>

fun js_truthy :: "json option \<Rightarrow> bool" where
  "js_truthy None = False"
| "js_truthy (Some JNull) = False"
| "js_truthy (Some (JBool b)) = b"
| "js_truthy (Some (JNumber n)) = (n \<noteq> Num 0 \<and> n \<noteq> NaN)"
| "js_truthy (Some (JString s)) = (s \<noteq> [])"
| "js_truthy (Some _) = True"

text \<open>
  \<open>v.k\<close> for the property names \<open>k\<close> that the adapters read from a response (none of them is
  a member that objects, arrays or strings inherit): a \<open>TypeError\<close> on \<open>undefined\<close> and
  \<open>null\<close>, the last entry of that name in an object, \<open>undefined\<close> otherwise.
\<close>

fun get_prop :: "json option \<Rightarrow> string \<Rightarrow> error + json option" where
  "get_prop None k =
     Inl (Error (''Cannot read properties of undefined (reading '' @ [CHR 0x27] @ k @ [CHR 0x27] @ '')''))"
| "get_prop (Some JNull) k =
     Inl (Error (''Cannot read properties of null (reading '' @ [CHR 0x27] @ k @ [CHR 0x27] @ '')''))"
| "get_prop (Some (JObject kvs)) k = Inr (map_of (rev kvs) k)"
| "get_prop (Some _) k = Inr None"

text \<open>\<open>v[0]\<close>.\<close>

fun first_element :: "json option \<Rightarrow> error + json option" where
  "first_element None = get_prop None ''0''"
| "first_element (Some JNull) = get_prop (Some JNull) ''0''"
| "first_element (Some (JArray xs)) = Inr (case xs of [] \<Rightarrow> None | x # _ \<Rightarrow> Some x)"
| "first_element (Some (JString s)) = Inr (case s of [] \<Rightarrow> None | c # _ \<Rightarrow> Some (JString [c]))"
| "first_element (Some v) = get_prop (Some v) ''0''"

text \<open>The elements that \<open>for (const x of v)\<close> visits; only arrays and strings are iterable.\<close>

fun iterate :: "json option \<Rightarrow> error + json list" where
  "iterate (Some (JArray xs)) = Inr xs"
| "iterate (Some (JString s)) = Inr (map (\<lambda>c. JString [c]) s)"
| "iterate _ = Inl (Error ''value is not iterable'')"

text \<open>The string of a value in a template literal.\<close>

fun template_string :: "world \<Rightarrow> json option \<Rightarrow> error + string" where
  "template_string w None = Inr ''undefined''"
| "template_string w (Some JNull) = Inr ''null''"
| "template_string w (Some (JBool b)) = Inr (if b then ''true'' else ''false'')"
| "template_string w (Some (JString s)) = Inr s"
| "template_string w (Some v) = ToString w v"

text \<open>\<open>v.length > 0\<close> for a truthy \<open>v\<close>.\<close>

fun length_positive :: "world \<Rightarrow> json option \<Rightarrow> error + bool" where
  "length_positive w (Some (JArray xs)) = Inr (xs \<noteq> [])"
| "length_positive w (Some (JString s)) = Inr (s \<noteq> [])"
| "length_positive w (Some (JObject kvs)) =
     (case map_of (rev kvs) ''length'' of
        None \<Rightarrow> Inr False
      | Some JNull \<Rightarrow> Inr False
      | Some (JBool b) \<Rightarrow> Inr b
      | Some (JNumber n) \<Rightarrow> Inr (num_less (Num 0) n)
      | Some v \<Rightarrow> GreaterThanZero w v)"
| "length_positive w _ = Inr False"

text \<open>Sequencing of steps that may throw.\<close>

definition bind :: "error + 'a \<Rightarrow> ('a \<Rightarrow> error + 'b) \<Rightarrow> error + 'b" where
  "bind m f = (case m of Inl e \<Rightarrow> Inl e | Inr x \<Rightarrow> f x)"

text \<open>A loop \<open>for (const x of xs) body\<close> over a state, stopping at the first exception.\<close>

fun for_each :: "('s \<Rightarrow> 'a \<Rightarrow> error + 's) \<Rightarrow> 'a list \<Rightarrow> 's \<Rightarrow> error + 's" where
  "for_each body [] s = Inr s"
| "for_each body (x # xs) s = bind (body s x) (for_each body xs)"

subsection \<open>Backend A: \<open>GeminiProvider\<close>\<close>

definition fetchImageAsBase64 :: "world \<Rightarrow> string \<Rightarrow> error + string \<times> string" where
  "fetchImageAsBase64 w u =
     bind (fetch_image w u) (\<lambda>r.
       if \<not> image_ok r then Inl (Error (''Failed to fetch image from URL: '' @ u))
       else bind (image_base64 r) (\<lambda>b.
         Inr (b, or_else (content_type r) ''image/png'')))"

text \<open>One turn of the loop over \<open>args.images\<close>: the parts so far, and the image.\<close>

definition Gemini_add_image :: "world \<Rightarrow> part list \<Rightarrow> ImageInput \<Rightarrow> error + part list" where
  "Gemini_add_image w parts im =
     (if truthy (base64 im) then
        Inr (parts @ [Inline_data (or_else (mimeType im) ''image/png'')
                        (strip_data_uri (the (base64 im)))])
      else if truthy (path im) then
        bind (readImageFileAsBase64 w (the (path im))) (\<lambda>(b, m).
          Inr (parts @ [Inline_data (or_else (mimeType im) m) b]))
      else if truthy (url im) then
        bind (fetchImageAsBase64 w (the (url im))) (\<lambda>(b, m).
          Inr (parts @ [Inline_data m b]))
      else Inr parts)"

text \<open>The parts of the request, as \<open>generateImage\<close> builds them before the POST.\<close>

definition Gemini_parts :: "world \<Rightarrow> ImageGenerationArgs \<Rightarrow> error + part list" where
  "Gemini_parts w args =
     (let aspectRatioConfig = parseAspectRatio (aspect_ratio args);
          parts = [Text (buildPrompt args aspectRatioConfig)]
      in bind (case images args of
                 None \<Rightarrow> Inr parts
               | Some imgs \<Rightarrow> for_each (Gemini_add_image w) imgs parts) (\<lambda>parts.
           case aspectRatioConfig of
             None \<Rightarrow> Inr parts
           | Some c \<Rightarrow> Inr (parts @ [Inline_data ''image/png'' (generateLargeBlankImage w c)])))"

text \<open>The image of one part of a candidate, appended when the part has \<open>inline_data\<close>.\<close>

definition Gemini_part_image ::
  "world \<Rightarrow> GeneratedImage list \<Rightarrow> json \<Rightarrow> error + GeneratedImage list" where
  "Gemini_part_image w imgs p =
     bind (get_prop (Some p) ''inline_data'') (\<lambda>inline.
       if js_truthy inline then
         bind (get_prop inline ''mime_type'') (\<lambda>mime.
         bind (get_prop inline ''data'') (\<lambda>d.
         bind (if js_truthy mime then template_string w mime else Inr ''image/png'') (\<lambda>mime_s.
         bind (template_string w d) (\<lambda>data_s.
         bind (case mime of
                 None \<Rightarrow> Inr ''png''
               | Some JNull \<Rightarrow> Inr ''png''
               | Some (JString s) \<Rightarrow> Inr (or_else (second_segment s) ''png'')
               | Some _ \<Rightarrow> Inl (Error ''part.inline_data.mime_type?.split is not a function''))
           (\<lambda>fmt.
             Inr (imgs @ [\<lparr>kind = Base64,
                           data = Some (''data:'' @ mime_s @ '';base64,'' @ data_s),
                           image_url = None, format = Some fmt\<rparr>]))))))
       else Inr imgs)"

definition Gemini_candidate_images ::
  "world \<Rightarrow> GeneratedImage list \<Rightarrow> json \<Rightarrow> error + GeneratedImage list" where
  "Gemini_candidate_images w imgs candidate =
     bind (get_prop (Some candidate) ''content'') (\<lambda>content.
       if js_truthy content then
         bind (get_prop content ''parts'') (\<lambda>ps.
           if js_truthy ps then
             bind (iterate ps) (\<lambda>elems. for_each (Gemini_part_image w) elems imgs)
           else Inr imgs)
       else Inr imgs)"

definition Gemini_extract_images :: "world \<Rightarrow> json \<Rightarrow> error + GeneratedImage list" where
  "Gemini_extract_images w d =
     bind (get_prop (Some d) ''candidates'') (\<lambda>cands.
       case cands of
         Some (JArray cs) \<Rightarrow> for_each (Gemini_candidate_images w) cs []
       | _ \<Rightarrow> Inr [])"

definition Gemini_usage :: "json \<Rightarrow> error + usage_counts option" where
  "Gemini_usage d =
     bind (get_prop (Some d) ''usageMetadata'') (\<lambda>u.
       if js_truthy u then
         bind (get_prop u ''promptTokenCount'') (\<lambda>i.
         bind (get_prop u ''candidatesTokenCount'') (\<lambda>out.
         bind (get_prop u ''totalTokenCount'') (\<lambda>t.
           Inr (Some \<lparr>input_tokens = i, output_tokens = out, tokens = t\<rparr>))))
       else Inr None)"

text \<open>The body of the \<open>try\<close> block of \<open>GeminiProvider.generateImage\<close>.\<close>

definition Gemini_try :: "world \<Rightarrow> string \<Rightarrow> ImageGenerationArgs \<Rightarrow> error + GenerationResult" where
  "Gemini_try w key args =
     bind (Gemini_parts w args) (\<lambda>parts.
     bind (fetch_post w (Gemini_request key parts)) (\<lambda>r.
       if \<not> ok r then
         bind (body_text r) (\<lambda>errorText.
           Inl (Error (''Gemini API error: '' @ show_int (int (status r)) @ '' - '' @ errorText)))
       else
         bind (body_json r) (\<lambda>d.
         bind (Gemini_extract_images w d) (\<lambda>imgs.
         bind (Gemini_usage d) (\<lambda>u.
           Inr \<lparr>success = True, provider = ''Gemini Direct'',
                model = ''gemini-2.5-flash-image-preview'',
                result_prompt = prompt args, result_images = Some imgs,
                message = Some (JString ''Image generated successfully''),
                usage = u, error = None\<rparr>)))))"

text \<open>\<open>GeminiProvider.generateImage\<close>: \<open>Inl\<close> is an exception that reaches the caller.\<close>

definition Gemini_generateImage ::
  "world \<Rightarrow> provider_instance \<Rightarrow> ImageGenerationArgs \<Rightarrow> error + GenerationResult" where
  "Gemini_generateImage w this args =
     (if \<not> truthy (apiKey this) then
        Inl (Error ''GEMINI_API_KEY environment variable is not set'')
      else
        (case Gemini_try w (the (apiKey this)) args of
           Inr result \<Rightarrow> Inr result
         | Inl e \<Rightarrow>
             Inr \<lparr>success = False, provider = ''Gemini Direct'',
                  model = ''gemini-2.5-flash-image-preview'',
                  result_prompt = prompt args, result_images = None,
                  message = None, usage = None, error = Some (error_message e)\<rparr>))"

subsection \<open>Backend B: \<open>OpenRouterProvider\<close>\<close>

definition GEMINI_MODEL :: string where
  "GEMINI_MODEL = ''google/gemini-2.5-flash-image-preview''"

text \<open>One turn of the loop over \<open>args.images\<close>: an image without \<open>base64\<close> and without
  \<open>url\<close> adds nothing.\<close>

definition OpenRouter_add_image :: "content_block list \<Rightarrow> ImageInput \<Rightarrow> content_block list" where
  "OpenRouter_add_image content im =
     (if truthy (base64 im) \<or> truthy (url im) then
        content @ [Image_url
          (if truthy (base64 im)
           then ''data:'' @ or_else (mimeType im) ''image/png'' @ '';base64,''
                  @ strip_data_uri (the (base64 im))
           else the (url im))]
      else content)"

definition OpenRouter_content :: "world \<Rightarrow> ImageGenerationArgs \<Rightarrow> content_block list" where
  "OpenRouter_content w args =
     (let aspectRatioConfig = parseAspectRatio (aspect_ratio args);
          content = [Text_block (buildPrompt args aspectRatioConfig)];
          content = (case images args of
                       None \<Rightarrow> content
                     | Some imgs \<Rightarrow> foldl OpenRouter_add_image content imgs)
      in case aspectRatioConfig of
           None \<Rightarrow> content
         | Some c \<Rightarrow> content @ [Image_url (''data:image/png;base64,'' @ generateLargeBlankImage w c)])"

text \<open>The image of a string that is a data URI or a URL.\<close>

definition data_uri_image :: "string \<Rightarrow> GeneratedImage" where
  "data_uri_image u =
     \<lparr>kind = Base64, data = Some u, image_url = None,
      format = Some (let f = substring u 11 (indexOf u CHR '';'') in if f = [] then ''png'' else f)\<rparr>"

definition url_image :: "string \<Rightarrow> GeneratedImage" where
  "url_image u = \<lparr>kind = Url, data = None, image_url = Some u, format = None\<rparr>"

definition OpenRouter_image ::
  "GeneratedImage list \<Rightarrow> json \<Rightarrow> error + GeneratedImage list" where
  "OpenRouter_image imgs img =
     bind (get_prop (Some img) ''image_url'') (\<lambda>iu.
       if js_truthy iu then
         bind (get_prop iu ''url'') (\<lambda>u.
           if js_truthy u then
             (case u of
                Some (JString s) \<Rightarrow>
                  if startsWith s ''data:'' then Inr (imgs @ [data_uri_image s])
                  else Inr (imgs @ [url_image s])
              | _ \<Rightarrow> Inl (Error ''url.startsWith is not a function''))
           else Inr imgs)
       else Inr imgs)"

definition OpenRouter_extract_images :: "world \<Rightarrow> json option \<Rightarrow> error + GeneratedImage list" where
  "OpenRouter_extract_images w msg =
     bind (get_prop msg ''images'') (\<lambda>mi.
     bind (if js_truthy mi then
             bind (length_positive w mi) (\<lambda>pos.
               if pos then bind (iterate mi) (\<lambda>elems. for_each OpenRouter_image elems [])
               else Inr [])
           else Inr []) (\<lambda>imgs.
     bind (get_prop msg ''content'') (\<lambda>content.
       if imgs = [] \<and> js_truthy content then
         (case content of
            Some (JString s) \<Rightarrow>
              if startsWith s ''data:image'' then Inr (imgs @ [data_uri_image s])
              else if includes_str s ''http'' then
                (case match_url s of
                   Some u \<Rightarrow> Inr (imgs @ [url_image u])
                 | None \<Rightarrow> Inr imgs)
              else Inr imgs
          | _ \<Rightarrow> Inl (Error ''message.content.startsWith is not a function''))
       else Inr imgs)))"

definition OpenRouter_usage :: "json \<Rightarrow> error + usage_counts option" where
  "OpenRouter_usage d =
     bind (get_prop (Some d) ''usage'') (\<lambda>u.
       if js_truthy u then
         bind (get_prop u ''prompt_tokens'') (\<lambda>i.
         bind (get_prop u ''completion_tokens'') (\<lambda>out.
         bind (get_prop u ''total_tokens'') (\<lambda>t.
           Inr (Some \<lparr>input_tokens = i, output_tokens = out, tokens = t\<rparr>))))
       else Inr None)"

text \<open>The body of the \<open>try\<close> block of \<open>OpenRouterProvider.generateImage\<close>.\<close>

definition OpenRouter_try ::
  "world \<Rightarrow> string \<Rightarrow> ImageGenerationArgs \<Rightarrow> error + GenerationResult" where
  "OpenRouter_try w key args =
     bind (fetch_post w (OpenRouter_request key (OpenRouter_content w args))) (\<lambda>r.
       if \<not> ok r then
         bind (body_text r) (\<lambda>errorText.
           Inl (Error (''OpenRouter API error: '' @ show_int (int (status r)) @ '' - ''
                         @ errorText)))
       else
         bind (body_json r) (\<lambda>d.
         bind (get_prop (Some d) ''choices'') (\<lambda>choices.
         bind (first_element choices) (\<lambda>choice.
         bind (get_prop choice ''message'') (\<lambda>msg.
         bind (OpenRouter_extract_images w msg) (\<lambda>imgs.
         bind (get_prop msg ''content'') (\<lambda>content.
         bind (OpenRouter_usage d) (\<lambda>u.
           Inr \<lparr>success = True, provider = ''OpenRouter'', model = GEMINI_MODEL,
                result_prompt = prompt args, result_images = Some imgs,
                message = (if js_truthy content then content
                           else Some (JString ''Image generated successfully'')),
                usage = u, error = None\<rparr>))))))))"

definition OpenRouter_generateImage ::
  "world \<Rightarrow> provider_instance \<Rightarrow> ImageGenerationArgs \<Rightarrow> error + GenerationResult" where
  "OpenRouter_generateImage w this args =
     (if \<not> truthy (apiKey this) then
        Inl (Error ''OPENROUTER_API_KEY environment variable is not set'')
      else
        (case OpenRouter_try w (the (apiKey this)) args of
           Inr result \<Rightarrow> Inr result
         | Inl e \<Rightarrow>
             Inr \<lparr>success = False, provider = ''OpenRouter'', model = GEMINI_MODEL,
                  result_prompt = prompt args, result_images = None,
                  message = None, usage = None, error = Some (error_message e)\<rparr>))"

section \<open>What one reference image contributes to a request\<close>

text \<open>
  The specification's view of the payload: each reference image contributes at most one
  element. For Backend A it is the inline part resolved from the image's source, or the
  exception of resolving it; for Backend B it is the \<open>image_url\<close> block of its base64 data or
  of its URL. An image contributes nothing when the adapter finds no source in it.
\<close>

definition Gemini_reference :: "world \<Rightarrow> ImageInput \<Rightarrow> (error + part) option" where
  "Gemini_reference w im =
     (if truthy (base64 im) then
        Some (Inr (Inline_data (or_else (mimeType im) ''image/png'')
                     (strip_data_uri (the (base64 im)))))
      else if truthy (path im) then
        Some (case readImageFileAsBase64 w (the (path im)) of
                Inl e \<Rightarrow> Inl e
              | Inr (b, m) \<Rightarrow> Inr (Inline_data (or_else (mimeType im) m) b))
      else if truthy (url im) then
        Some (case fetchImageAsBase64 w (the (url im)) of
                Inl e \<Rightarrow> Inl e
              | Inr (b, m) \<Rightarrow> Inr (Inline_data m b))
      else None)"

definition OpenRouter_reference :: "ImageInput \<Rightarrow> content_block option" where
  "OpenRouter_reference im =
     (if truthy (base64 im) then
        Some (Image_url (''data:'' @ or_else (mimeType im) ''image/png'' @ '';base64,''
                           @ strip_data_uri (the (base64 im))))
      else if truthy (url im) then Some (Image_url (the (url im)))
      else None)"

text \<open>The reference images of a request, and the parts of those that resolve.\<close>

definition reference_images :: "ImageGenerationArgs \<Rightarrow> ImageInput list" where
  "reference_images args = (case images args of None \<Rightarrow> [] | Some imgs \<Rightarrow> imgs)"

definition resolved_part :: "world \<Rightarrow> ImageInput \<Rightarrow> part option" where
  "resolved_part w im = (case Gemini_reference w im of Some (Inr p) \<Rightarrow> Some p | _ \<Rightarrow> None)"

section \<open>Reading the size of a PNG image\<close>





section \<open>File Persister (\<open>utils.ts\<close>)\<close>

text \<open>\<open>filename.replace(/[^a-z0-9_\-]+/gi, '_').slice(0, 64)\<close>: every maximal run of
  characters outside the safe set becomes one underscore.\<close>

definition is_safe_char :: "char \<Rightarrow> bool" where
  "is_safe_char c =
     (let n = char_code c
      in (97 \<le> n \<and> n \<le> 122) \<or> (65 \<le> n \<and> n \<le> 90) \<or> (48 \<le> n \<and> n \<le> 57)
         \<or> c = CHR ''_'' \<or> c = CHR ''-'')"

function replace_unsafe_runs :: "string \<Rightarrow> string" where
  "replace_unsafe_runs [] = []"
| "replace_unsafe_runs (c # cs) =
     (if is_safe_char c then c # replace_unsafe_runs cs
      else CHR ''_'' # replace_unsafe_runs (dropWhile (\<lambda>x. \<not> is_safe_char x) cs))"
  by pat_completeness auto
termination
  by (relation "measure length") (auto simp: length_dropWhile_le less_Suc_eq_le)

definition sanitizeFilename :: "string \<Rightarrow> string" where
  "sanitizeFilename filename = take 64 (replace_unsafe_runs filename)"

text \<open>\<open>new Date().toISOString().replace(/[:.]/g, '-')\<close> on the ISO string of the clock.\<close>

definition timestamp_of :: "string \<Rightarrow> string" where
  "timestamp_of t = map (\<lambda>c. if c = CHR '':'' \<or> c = CHR ''.'' then CHR ''-'' else c) t"

text \<open>A buffer: the lenient base64 decoding of a string (\<open>Buffer.from(s, 'base64')\<close>), or
  the bytes of a fetched body.\<close>

datatype buffer = From_base64 string | From_bytes "nat list"

record fetched =
  fetched_ok :: bool
  arrayBuffer :: "error + nat list"
  fetched_content_type :: "string option"

text \<open>
  The file system, the clock and the network as \<open>saveImages\<close> meets them. The calls of the
  \<open>i\<close>-th turn of the loop carry the index \<open>i\<close>, so that their outcomes may differ from turn
  to turn. \<open>path_join\<close> is \<open>path.join\<close> of the platform.
\<close>

record fs_world =
  mkdir :: "string \<Rightarrow> error option"
  now_iso :: "nat \<Rightarrow> string"
  fetch_url :: "nat \<Rightarrow> string \<Rightarrow> error + fetched"
  writeFile :: "nat \<Rightarrow> string \<Rightarrow> buffer \<Rightarrow> error option"
  path_join :: "string \<Rightarrow> string \<Rightarrow> string"

definition outputDir :: string where
  "outputDir = ''generated_images''"

text \<open>The buffer and the extension of the \<open>i\<close>-th image; \<open>Inr None\<close> is \<open>continue\<close>.\<close>

definition image_content ::
  "fs_world \<Rightarrow> nat \<Rightarrow> GeneratedImage \<Rightarrow> error + (buffer \<times> string) option" where
  "image_content w i im =
     (if kind im = Base64 \<and> truthy (data im) then
        (let d = the (data im);
             buf = From_base64 (strip_data_uri d);
             ext = (if truthy (format im) then the (format im)
                    else if startsWith d ''data:'' then
                      (case match_mime d of
                         Some m \<Rightarrow> if m = ''jpeg'' then ''jpg'' else m
                       | None \<Rightarrow> ''png'')
                    else ''png'')
         in Inr (Some (buf, ext)))
      else if kind im = Url \<and> truthy (image_url im) then
        bind (fetch_url w i (the (image_url im))) (\<lambda>r.
          if \<not> fetched_ok r
          then Inl (Error (''Failed to fetch image from URL: '' @ the (image_url im)))
          else bind (arrayBuffer r) (\<lambda>bytes.
            let ext = (if truthy (fetched_content_type r)
                       then (let e = or_else (second_segment (the (fetched_content_type r)))
                                       ''png''
                             in if e = ''jpeg'' then ''jpg'' else e)
                       else ''png'')
            in Inr (Some (From_bytes bytes, ext))))
      else Inr None)"

text \<open>The name of the file of the \<open>i\<close>-th of \<open>n\<close> images.\<close>

definition image_filename :: "fs_world \<Rightarrow> nat \<Rightarrow> string \<Rightarrow> nat \<Rightarrow> string \<Rightarrow> string" where
  "image_filename w n baseFilename i ext =
     (let timestamp = timestamp_of (now_iso w i);
          safeBase = sanitizeFilename (if baseFilename = [] then ''generated_image''
                                       else baseFilename)
      in if 1 < n
         then safeBase @ ''_'' @ timestamp @ ''_'' @ show_int (int i + 1) @ ''.'' @ ext
         else safeBase @ ''_'' @ timestamp @ ''.'' @ ext)"

text \<open>
  The state of the loop: \<open>savedFiles\<close>, and the files that \<open>writeFile\<close> has written so far.
  One turn runs the \<open>try\<close> block on the \<open>i\<close>-th image; its exceptions are caught and logged.
\<close>

record save_state =
  savedFiles :: "string list"
  written :: "(string \<times> buffer) list"

definition save_image ::
  "fs_world \<Rightarrow> nat \<Rightarrow> string \<Rightarrow> save_state \<Rightarrow> nat \<times> GeneratedImage \<Rightarrow> save_state" where
  "save_image w n baseFilename st ix =
     (case ix of (i, im) \<Rightarrow>
        (case image_content w i im of
           Inl e \<Rightarrow> st
         | Inr None \<Rightarrow> st
         | Inr (Some (buf, ext)) \<Rightarrow>
             (let filepath = path_join w outputDir (image_filename w n baseFilename i ext)
              in case writeFile w i filepath buf of
                   Some e \<Rightarrow> st
                 | None \<Rightarrow> \<lparr>savedFiles = savedFiles st @ [filepath],
                             written = written st @ [(filepath, buf)]\<rparr>)))"

text \<open>\<open>saveImages\<close>: the returned list, or the exception of \<open>mkdir\<close>, and the files written.\<close>

definition saveImages ::
  "fs_world \<Rightarrow> GeneratedImage list \<Rightarrow> string \<Rightarrow> (error + string list) \<times> (string \<times> buffer) list"
  where
  "saveImages w imgs baseFilename =
     (case mkdir w outputDir of
        Some e \<Rightarrow> (Inl e, [])
      | None \<Rightarrow>
          (let st = foldl (save_image w (length imgs) baseFilename)
                      \<lparr>savedFiles = [], written = []\<rparr> (zip [0..<length imgs] imgs)
           in (Inr (savedFiles st), written st)))"

text \<open>The file that the turn for the \<open>i\<close>-th image writes, when it writes one: the image has
  content, and \<open>writeFile\<close> succeeds on its path.\<close>

definition written_file ::
  "fs_world \<Rightarrow> nat \<Rightarrow> string \<Rightarrow> nat \<times> GeneratedImage \<Rightarrow> (string \<times> buffer) option" where
  "written_file w n baseFilename ix =
     (case ix of (i, im) \<Rightarrow>
        (case image_content w i im of
           Inr (Some (buf, ext)) \<Rightarrow>
             (let filepath = path_join w outputDir (image_filename w n baseFilename i ext)
              in if writeFile w i filepath buf = None then Some (filepath, buf) else None)
         | _ \<Rightarrow> None))"

section \<open>Example inputs\<close>

text \<open>Concrete worlds, requests and images, at which the statements below are evaluated.\<close>

definition example_world :: world where
  "example_world =
     \<lparr>readImageFileAsBase64 =
        (\<lambda>p. if p = ''ref.png'' then Inr (''RklMRQ=='', ''image/jpeg'')
             else Inl (Error ''ENOENT: no such file or directory'')),
      fetch_image = (\<lambda>u. Inl (Error ''fetch failed'')),
      jimp_png = (\<lambda>c. Inr ''UE5H''),
      fetch_post = (\<lambda>r. Inr \<lparr>status = 200, body_text = Inr ''{}'', body_json = Inr (JObject [])\<rparr>),
      ToString = (\<lambda>v. Inr ''[object Object]''),
      GreaterThanZero = (\<lambda>v. Inr False)\<rparr>"

definition path_image :: ImageInput where
  "path_image = \<lparr>path = Some ''ref.png'', url = None, base64 = None, mimeType = None,
                  description = None\<rparr>"

definition inline_image :: ImageInput where
  "inline_image = \<lparr>path = Some ''ref.png'', url = Some ''https://example.org/a.png'',
                    base64 = Some ''QUJD'', mimeType = None, description = None\<rparr>"

definition example_args :: ImageGenerationArgs where
  "example_args =
     \<lparr>prompt = ''a red circle'', images = Some [path_image, inline_image],
      scenario = None, aspect_ratio = Some ''landscape'', negative_prompt = None,
      sample_count = None\<rparr>"

definition configured :: provider_instance where
  "configured = \<lparr>apiKey = Some ''secret''\<rparr>"

definition unconfigured :: provider_instance where
  "unconfigured = \<lparr>apiKey = None\<rparr>"

definition text_args :: ImageGenerationArgs where
  "text_args = \<lparr>prompt = ''a red circle'', images = None, scenario = None,
                 aspect_ratio = None, negative_prompt = None, sample_count = None\<rparr>"

definition offline_world :: world where
  "offline_world = example_world \<lparr>fetch_post := (\<lambda>r. Inl (Error ''fetch failed''))\<rparr>"

definition empty_message_world :: world where
  "empty_message_world = example_world
     \<lparr>fetch_post := (\<lambda>r. Inr \<lparr>status = 200, body_text = Inr ''a choice with an empty message'',
          body_json = Inr (JObject [(''choices'', JArray [JObject [(''message'', JObject [])]])])\<rparr>)\<rparr>"



definition example_fs :: fs_world where
  "example_fs =
     \<lparr>mkdir = (\<lambda>d. None),
      now_iso = (\<lambda>i. ''2025-01-01T00:00:00.000Z''),
      fetch_url = (\<lambda>i u. Inl (Error ''fetch failed'')),
      writeFile = (\<lambda>i p b. None),
      path_join = (\<lambda>d f. d @ ''/'' @ f)\<rparr>"

definition inline_result :: GeneratedImage where
  "inline_result = \<lparr>kind = Base64, data = Some ''data:image/png;base64,QUJD'',
                     image_url = None, format = Some ''png''\<rparr>"

definition remote_result :: GeneratedImage where
  "remote_result = \<lparr>kind = Url, data = None, image_url = Some ''https://example.org/a.png'',
                     format = None\<rparr>"

section \<open>Adapter Selector (\<open>NanoBananaMCPServer.selectProvider\<close>)\<close>

datatype ImageProvider = GeminiProvider | OpenRouterProvider

record NanoBananaMCPServer =
  geminiProvider :: provider_instance
  openRouterProvider :: provider_instance

definition selectProvider :: "NanoBananaMCPServer \<Rightarrow> string option \<Rightarrow> ImageProvider option" where
  "selectProvider srv preference =
     (if preference = Some ''gemini'' \<and> isAvailable (geminiProvider srv) then Some GeminiProvider
      else if preference = Some ''openrouter'' \<and> isAvailable (openRouterProvider srv)
        then Some OpenRouterProvider
      else if preference = Some ''auto'' \<or> \<not> truthy preference then
        (if isAvailable (geminiProvider srv) then Some GeminiProvider
         else if isAvailable (openRouterProvider srv) then Some OpenRouterProvider
         else None)
      else None)"

section \<open>Properties\<close>

subsection \<open>Rounding to a double\<close>

lemma pow2_pos [simp]: "0 < pow2 k"
  by (simp add: pow2_def)

lemma pow2_add: "pow2 (a + b) = pow2 a * pow2 b"
proof -
  have "pow2 k = 2 powi k" for k
    by (simp add: pow2_def power_int_def field_simps)
  then show ?thesis by (simp add: power_int_add)
qed

lemma pow2_0 [simp]: "pow2 0 = 1"
  by (simp add: pow2_def)

lemma pow2_minus: "pow2 (- k) = 1 / pow2 k"
proof -
  have "pow2 k * pow2 (- k) = 1" using pow2_add [of k "- k"] by simp
  moreover have "pow2 k \<noteq> 0" using pow2_pos [of k] by linarith
  ultimately show ?thesis by (simp add: field_simps)
qed

lemma pow2_diff: "pow2 (a - b) = pow2 a / pow2 b"
  using pow2_add [of a "- b"] by (simp add: pow2_minus)

lemma pow2_mono: "a \<le> b \<Longrightarrow> pow2 a \<le> pow2 b"
proof -
  assume "a \<le> b"
  then have "pow2 b = pow2 a * pow2 (b - a)" "0 \<le> b - a"
    using pow2_add [of a "b - a"] by simp_all
  moreover have "1 \<le> pow2 (b - a)" using \<open>0 \<le> b - a\<close> by (simp add: pow2_def)
  ultimately show ?thesis
    by (metis mult.right_neutral mult_le_cancel_left_pos pow2_pos)
qed

lemma pow2_nat: "pow2 (int n) = 2 ^ n"
  by (simp add: pow2_def)

lemma ilog2_bounds:
  assumes "0 < x"
  shows "pow2 (ilog2 x) \<le> x \<and> x < pow2 (ilog2 x + 1)"
proof -
  obtain p q where pq: "quotient_of x = (p, q)" by (cases "quotient_of x")
  then have q: "0 < q" and x: "x = of_int p / of_int q"
    using quotient_of_denom_pos quotient_of_div by blast+
  with assms have p: "0 < p"
    by (simp add: zero_less_divide_iff)
  define bp where "bp = floorlog 2 (nat p)"
  define bq where "bq = floorlog 2 (nat q)"
  have bpb: "2 ^ (bp - 1) \<le> nat p" "nat p < 2 ^ bp"
    using floorlog_bounds [of "nat p" 2] p by (simp_all add: bp_def)
  have bqb: "2 ^ (bq - 1) \<le> nat q" "nat q < 2 ^ bq"
    using floorlog_bounds [of "nat q" 2] q by (simp_all add: bq_def)
  have bp0: "0 < bp" and bq0: "0 < bq"
    using p q floorlog_eq_zero_iff [of 2 "nat p"] floorlog_eq_zero_iff [of 2 "nat q"]
    by (simp_all add: bp_def bq_def)
  have P: "pow2 (int bp - 1) \<le> of_int p" "of_int p < pow2 (int bp)"
  proof -
    have e: "pow2 (int bp - 1) = 2 ^ (bp - 1)"
      using bp0 pow2_nat [of "bp - 1"] by (simp add: of_nat_diff)
    have "(2::rat) ^ (bp - 1) \<le> of_nat (nat p)"
      using bpb(1) by (metis of_nat_le_iff of_nat_numeral of_nat_power)
    also have "\<dots> = of_int p" using p by simp
    finally show "pow2 (int bp - 1) \<le> of_int p"
      unfolding e .
    have "(of_nat (nat p) :: rat) < 2 ^ bp"
      using bpb(2) by (metis of_nat_less_iff of_nat_numeral of_nat_power)
    moreover have "(of_nat (nat p) :: rat) = of_int p" using p by simp
    ultimately show "of_int p < pow2 (int bp)"
      by (simp only: pow2_nat)
  qed
  have Q: "pow2 (int bq - 1) \<le> of_int q" "of_int q < pow2 (int bq)"
  proof -
    have e: "pow2 (int bq - 1) = 2 ^ (bq - 1)"
      using bq0 pow2_nat [of "bq - 1"] by (simp add: of_nat_diff)
    have "(2::rat) ^ (bq - 1) \<le> of_nat (nat q)"
      using bqb(1) by (metis of_nat_le_iff of_nat_numeral of_nat_power)
    also have "\<dots> = of_int q" using q by simp
    finally show "pow2 (int bq - 1) \<le> of_int q"
      unfolding e .
    have "(of_nat (nat q) :: rat) < 2 ^ bq"
      using bqb(2) by (metis of_nat_less_iff of_nat_numeral of_nat_power)
    moreover have "(of_nat (nat q) :: rat) = of_int q" using q by simp
    ultimately show "of_int q < pow2 (int bq)"
      by (simp only: pow2_nat)
  qed
  define d where "d = int bp - int bq"
  have qr: "(0::rat) < of_int q" using q by simp
  have lo: "pow2 (d - 1) < x"
  proof -
    have "pow2 (d - 1) * of_int q < pow2 (d - 1) * pow2 (int bq)"
      using Q(2) by simp
    also have "\<dots> = pow2 (int bp - 1)"
      by (simp add: d_def pow2_add [symmetric])
    also have "\<dots> \<le> of_int p" by (rule P(1))
    finally show ?thesis using qr by (simp add: x pos_less_divide_eq)
  qed
  have hi: "x < pow2 (d + 1)"
  proof -
    have "of_int p < pow2 (int bp)" by (rule P(2))
    also have "\<dots> = pow2 (d + 1) * pow2 (int bq - 1)"
      by (simp add: d_def pow2_add [symmetric])
    also have "\<dots> \<le> pow2 (d + 1) * of_int q"
      using Q(1) by simp
    finally show ?thesis using qr by (simp add: x pos_divide_less_eq)
  qed
  have il: "ilog2 x = (if pow2 d \<le> x then d else d - 1)"
    by (simp add: ilog2_def pq d_def bp_def bq_def Let_def)
  show ?thesis
  proof (cases "pow2 d \<le> x")
    case True
    with il hi show ?thesis by simp
  next
    case False
    with il lo show ?thesis by simp
  qed
qed

lemma ilog2_unique:
  assumes "pow2 e \<le> x" "x < pow2 (e + 1)"
  shows "ilog2 x = e"
proof -
  have x: "0 < x" using assms(1) pow2_pos [of e] by linarith
  note b = ilog2_bounds [OF x]
  have "\<not> ilog2 x + 1 \<le> e"
  proof
    assume "ilog2 x + 1 \<le> e"
    then have "pow2 (ilog2 x + 1) \<le> pow2 e" by (rule pow2_mono)
    with b assms show False by linarith
  qed
  moreover have "\<not> e + 1 \<le> ilog2 x"
  proof
    assume "e + 1 \<le> ilog2 x"
    then have "pow2 (e + 1) \<le> pow2 (ilog2 x)" by (rule pow2_mono)
    with b assms show False by linarith
  qed
  ultimately show ?thesis by linarith
qed

lemma round_half_even_error: "\<bar>of_int (round_half_even y) - y\<bar> \<le> 1 / 2"
proof -
  have "of_int \<lfloor>y\<rfloor> \<le> y" "y < of_int \<lfloor>y\<rfloor> + 1" by linarith+
  then show ?thesis
    by (auto simp: round_half_even_def Let_def)
qed

lemma round_half_even_unique:
  assumes "\<bar>of_int m - y\<bar> < 1 / 2"
  shows "round_half_even y = m"
proof -
  have "\<bar>(of_int (round_half_even y) :: rat) - of_int m\<bar> < 1"
    using round_half_even_error [of y] assms by linarith
  then have "\<bar>(of_int (round_half_even y - m) :: rat)\<bar> < 1" by simp
  then have "\<bar>round_half_even y - m\<bar> < 1"
    by (metis of_int_abs of_int_less_1_iff)
  then show ?thesis by linarith
qed

lemma round_half_even_of_int [simp]: "round_half_even (of_int n) = n"
  by (rule round_half_even_unique) simp


lemma fl_certificate:
  assumes lo: "pow2 e \<le> x" and hi: "x < pow2 (e + 1)"
      and e: "- 1022 \<le> e" "e \<le> 1022"
      and m: "\<bar>of_int m - x / pow2 (e - 52)\<bar> \<le> 1 / 2"
      and r: "round_half_even (x / pow2 (e - 52)) = m"
  shows "fl x = Num (of_int m * pow2 (e - 52))"
    and "\<bar>of_int m * pow2 (e - 52) - x\<bar> \<le> pow2 (e - 53)"
    and "of_int m * pow2 (e - 52) < pow2 1024"
proof -
  have x: "0 < x" using lo pow2_pos [of e] by linarith
  have il: "ilog2 x = e" using lo hi by (rule ilog2_unique)
  have k: "max (e - 52) (- 1074) = e - 52" using e by simp
  define q where "q = pow2 (e - 52)"
  have q: "0 < q" by (simp add: q_def)
  have half: "q / 2 = pow2 (e - 53)"
    using pow2_diff [of "e - 52" 1] by (simp add: q_def pow2_def)
  have "of_int m * q - x = (of_int m - x / q) * q"
    using q by (simp add: left_diff_distrib)
  then have "\<bar>of_int m * q - x\<bar> = \<bar>of_int m - x / q\<bar> * \<bar>q\<bar>"
    by (simp only: abs_mult)
  also have "\<dots> = \<bar>of_int m - x / q\<bar> * q"
    using q by simp
  also have "\<dots> \<le> (1 / 2) * q"
    using m q by (simp add: q_def mult_right_mono)
  finally show err: "\<bar>of_int m * pow2 (e - 52) - x\<bar> \<le> pow2 (e - 53)"
    using half by (simp add: q_def)
  have "pow2 (e - 53) \<le> pow2 (e + 1)" by (rule pow2_mono) simp
  then have "of_int m * pow2 (e - 52) < pow2 (e + 1) + pow2 (e + 1)"
    using err hi by linarith
  also have "\<dots> = pow2 (e + 2)"
    using pow2_add [of "e + 1" 1] by (simp add: pow2_def add.commute)
  also have "\<dots> \<le> pow2 1024" using e by (intro pow2_mono) simp
  finally show bound: "of_int m * pow2 (e - 52) < pow2 1024" .
  show "fl x = Num (of_int m * pow2 (e - 52))"
    using x bound r by (simp add: fl_def il k Let_def)
qed

lemma fl_normal:
  assumes "pow2 e \<le> x" "x < pow2 (e + 1)" "- 1022 \<le> e" "e \<le> 1022"
  shows "\<exists>y. fl x = Num y \<and> \<bar>y - x\<bar> \<le> pow2 (e - 53)"
  using fl_certificate [OF assms round_half_even_error refl] by blast

lemma fl_relative_error:
  assumes "pow2 (- 1022) \<le> x" "x < pow2 1023"
  shows "\<exists>y. fl x = Num y \<and> \<bar>y - x\<bar> \<le> x / 2 ^ 53"
proof -
  have x: "0 < x" using assms(1) pow2_pos [of "- 1022"] by linarith
  define e where "e = ilog2 x"
  have b: "pow2 e \<le> x" "x < pow2 (e + 1)"
    using ilog2_bounds [OF x] by (simp_all add: e_def)
  have "\<not> e + 1 \<le> - 1022"
  proof
    assume "e + 1 \<le> - 1022"
    then have "pow2 (e + 1) \<le> pow2 (- 1022)" by (rule pow2_mono)
    with b assms show False by linarith
  qed
  moreover have "\<not> 1023 \<le> e"
  proof
    assume "1023 \<le> e"
    then have "pow2 1023 \<le> pow2 e" by (rule pow2_mono)
    with b assms show False by linarith
  qed
  ultimately have e: "- 1022 \<le> e" "e \<le> 1022" by linarith+
  obtain y where y: "fl x = Num y" "\<bar>y - x\<bar> \<le> pow2 (e - 53)"
    using fl_normal [OF b e] by blast
  have "pow2 (e - 53) = pow2 e / 2 ^ 53"
    using pow2_diff [of e 53] by (simp add: pow2_def)
  also have "\<dots> \<le> x / 2 ^ 53"
    using b(1) by (simp add: divide_right_mono)
  finally show ?thesis using y by auto
qed

lemma fl_of_nat:
  assumes "0 < n" "n < 2 ^ 53"
  shows "fl (of_nat n) = Num (of_nat n)"
proof -
  define x :: rat where "x = of_nat n"
  have x1: "1 \<le> x" using assms(1) by (simp add: x_def)
  have xu: "x < pow2 53"
  proof -
    have "(of_nat n :: rat) < of_nat (2 ^ 53)" using assms(2) by (simp only: of_nat_less_iff)
    then show ?thesis by (simp add: x_def pow2_def)
  qed
  have x: "0 < x" using x1 by linarith
  define e where "e = ilog2 x"
  have b: "pow2 e \<le> x" "x < pow2 (e + 1)"
    using ilog2_bounds [OF x] by (simp_all add: e_def)
  have "\<not> e + 1 \<le> 0"
  proof
    assume "e + 1 \<le> 0"
    then have "pow2 (e + 1) \<le> pow2 0" by (rule pow2_mono)
    with b x1 show False by simp
  qed
  moreover have "\<not> 53 \<le> e"
  proof
    assume "53 \<le> e"
    then have "pow2 53 \<le> pow2 e" by (rule pow2_mono)
    with b xu show False by linarith
  qed
  ultimately have e: "0 \<le> e" "e \<le> 52" by linarith+
  define j where "j = nat (52 - e)"
  have "int j = 52 - e" using e by (simp add: j_def)
  then have "pow2 (e - 52) = pow2 (- int j)" by simp
  then have pk: "pow2 (e - 52) = 1 / 2 ^ j"
    by (simp only: pow2_minus pow2_nat)
  have "x / pow2 (e - 52) = of_int (int n * 2 ^ j)"
    by (simp add: pk x_def)
  then have r: "round_half_even (x / pow2 (e - 52)) = int n * 2 ^ j"
    by (simp only: round_half_even_of_int)
  have m: "\<bar>of_int (int n * 2 ^ j) - x / pow2 (e - 52)\<bar> \<le> 1 / 2"
    using round_half_even_error [of "x / pow2 (e - 52)"] by (simp only: r)
  have "fl x = Num (of_int (int n * 2 ^ j) * pow2 (e - 52))"
    using e by (intro fl_certificate(1) [OF b _ _ m r]) simp_all
  also have "of_int (int n * 2 ^ j) * pow2 (e - 52) = x"
    by (simp add: pk x_def)
  finally show ?thesis by (simp add: x_def)
qed

subsection \<open>Double arithmetic of the resolver\<close>

lemma fl_dyadic:
  assumes "0 < n" "n < 2 ^ 53" "j \<le> 1022"
  shows "fl (of_nat n / 2 ^ j) = Num (of_nat n / 2 ^ j)"
proof -
  define x :: rat where "x = of_nat n / 2 ^ j"
  have pj: "pow2 (- int j) = 1 / 2 ^ j"
    by (simp only: pow2_minus pow2_nat)
  have n1: "(1::rat) \<le> of_nat n" using assms(1) by simp
  have nu: "(of_nat n :: rat) < 2 ^ 53"
  proof -
    have "(of_nat n :: rat) < of_nat (2 ^ 53)" using assms(2) by (simp only: of_nat_less_iff)
    then show ?thesis by simp
  qed
  have xl: "pow2 (- int j) \<le> x"
    using n1 by (simp add: pj x_def divide_right_mono)
  have xu: "x < pow2 (53 - int j)"
  proof -
    have "x < 2 ^ 53 / 2 ^ j" using nu by (simp add: x_def divide_strict_right_mono)
    also have "\<dots> = pow2 53 * pow2 (- int j)" by (simp add: pj pow2_def)
    also have "\<dots> = pow2 (53 - int j)" by (simp add: pow2_add [symmetric])
    finally show ?thesis .
  qed
  have x: "0 < x" using assms(1) by (simp add: x_def)
  define e where "e = ilog2 x"
  have b: "pow2 e \<le> x" "x < pow2 (e + 1)"
    using ilog2_bounds [OF x] by (simp_all add: e_def)
  have "\<not> e + 1 \<le> - int j"
  proof
    assume "e + 1 \<le> - int j"
    then have "pow2 (e + 1) \<le> pow2 (- int j)" by (rule pow2_mono)
    with b xl show False by linarith
  qed
  moreover have "\<not> 53 - int j \<le> e"
  proof
    assume "53 - int j \<le> e"
    then have "pow2 (53 - int j) \<le> pow2 e" by (rule pow2_mono)
    with b xu show False by linarith
  qed
  ultimately have e: "- int j \<le> e" "e \<le> 52 - int j" by linarith+
  define i where "i = nat (52 - int j - e)"
  have "int i = 52 - int j - e" using e by (simp add: i_def)
  then have "pow2 (e - 52) = pow2 (- int j) * pow2 (- int i)"
    by (simp add: pow2_add [symmetric])
  then have pk: "pow2 (e - 52) = 1 / (2 ^ j * 2 ^ i)"
    by (simp only: pow2_minus pow2_nat) simp
  have "x / pow2 (e - 52) = of_int (int n * 2 ^ i)"
    by (simp add: pk x_def)
  then have r: "round_half_even (x / pow2 (e - 52)) = int n * 2 ^ i"
    by (simp only: round_half_even_of_int)
  have m: "\<bar>of_int (int n * 2 ^ i) - x / pow2 (e - 52)\<bar> \<le> 1 / 2"
    using round_half_even_error [of "x / pow2 (e - 52)"] by (simp only: r)
  have "fl x = Num (of_int (int n * 2 ^ i) * pow2 (e - 52))"
    using e assms(3) by (intro fl_certificate(1) [OF b _ _ m r]) simp_all
  also have "of_int (int n * 2 ^ i) * pow2 (e - 52) = x"
    by (simp add: pk x_def)
  finally show ?thesis by (simp add: x_def)
qed

lemma nearest_integer_stable:
  fixes z :: rat and N a :: int
  assumes a: "0 < a" and d: "\<bar>z - of_int N / of_int a\<bar> < 1 / (2 * of_int a)"
  defines "x \<equiv> (of_int N / of_int a :: rat)"
  shows "\<lfloor>z + 1 / 2\<rfloor> = \<lfloor>x + 1 / 2\<rfloor> \<or> (\<lfloor>z + 1 / 2\<rfloor> = \<lfloor>x + 1 / 2\<rfloor> - 1 \<and> x = of_int \<lfloor>z + 1 / 2\<rfloor> + 1 / 2)"
proof -
  define c where "c = \<lfloor>x + 1 / 2\<rfloor>"
  define M where "M = 2 * N + a"
  have ar: "(0::rat) < of_int a" using a by simp
  have t: "x + 1 / 2 = of_int M / (2 * of_int a)"
    using ar by (simp add: x_def M_def field_simps)
  have c1: "of_int c \<le> x + 1 / 2" and c2: "x + 1 / 2 < of_int c + 1"
    unfolding c_def by linarith+
  have "of_int M < (of_int c + 1) * (2 * of_int a :: rat)"
    using c2 ar by (simp add: t pos_divide_less_eq)
  then have "of_int M < (of_int ((c + 1) * (2 * a)) :: rat)" by simp
  then have "M < (c + 1) * (2 * a)" by (simp only: of_int_less_iff)
  then have "M + 1 \<le> (c + 1) * (2 * a)" by simp
  then have "(of_int (M + 1) :: rat) \<le> of_int ((c + 1) * (2 * a))" by (simp only: of_int_le_iff)
  then have "of_int M / (2 * of_int a) + 1 / (2 * of_int a) \<le> (of_int c + 1 :: rat)"
    using ar by (simp add: field_simps)
  then have up: "x + 1 / 2 + 1 / (2 * of_int a) \<le> of_int c + 1" by (simp only: t)
  have zu: "z + 1 / 2 < of_int c + 1"
    using d up unfolding x_def by linarith
  show ?thesis
  proof (cases "x + 1 / 2 = of_int c")
    case True
    have zl: "of_int c - 1 \<le> z + 1 / 2"
    proof -
      have "1 / (2 * of_int a) \<le> (1::rat)" using a by (simp add: field_simps)
      then show ?thesis using d True unfolding x_def by linarith
    qed
    show ?thesis
    proof (cases "of_int c \<le> z + 1 / 2")
      case True
      then have "\<lfloor>z + 1 / 2\<rfloor> = c" using zu by linarith
      then show ?thesis unfolding c_def [symmetric] by blast
    next
      case False
      then have A: "\<lfloor>z + 1 / 2\<rfloor> = c - 1" using zl by linarith
      have "x = of_int c - 1 + 1 / 2" using \<open>x + 1 / 2 = of_int c\<close> by linarith
      then have B: "x = of_int \<lfloor>z + 1 / 2\<rfloor> + 1 / 2" by (simp only: A of_int_diff of_int_1)
      show ?thesis unfolding c_def [symmetric] using A B by blast
    qed
  next
    case False
    then have "of_int c < x + 1 / 2" using c1 by linarith
    then have "of_int c * (2 * of_int a) < (of_int M :: rat)"
      using ar by (simp add: t pos_less_divide_eq)
    then have "(of_int (c * (2 * a)) :: rat) < of_int M" by simp
    then have "c * (2 * a) < M" by (simp only: of_int_less_iff)
    then have "c * (2 * a) + 1 \<le> M" by simp
    then have "(of_int (c * (2 * a) + 1) :: rat) \<le> of_int M" by (simp only: of_int_le_iff)
    then have "(of_int c * (2 * of_int a) + 1) / (2 * of_int a) \<le> (of_int M / (2 * of_int a) :: rat)"
      using ar by (simp add: divide_right_mono)
    moreover have "(of_int c * (2 * of_int a) + 1) / (2 * of_int a) = (of_int c + 1 / (2 * of_int a) :: rat)"
      using ar by (simp add: add_divide_distrib)
    ultimately have "of_int c + 1 / (2 * of_int a) \<le> (of_int M / (2 * of_int a) :: rat)"
      by simp
    then have "of_int c + 1 / (2 * of_int a) \<le> x + 1 / 2" by (simp only: t)
    then have "of_int c \<le> z + 1 / 2"
      using d unfolding x_def by linarith
    then have "\<lfloor>z + 1 / 2\<rfloor> = c" using zu by linarith
    then show ?thesis unfolding c_def [symmetric] by blast
  qed
qed

lemma pow2_numeral_bounds:
  "pow2 (- 1022) \<le> 1 / 2 ^ 42" "(2::rat) ^ 42 \<le> pow2 1023"
proof -
  have "pow2 (- 1022) \<le> pow2 (- 42)" by (rule pow2_mono) simp
  then show "pow2 (- 1022) \<le> 1 / 2 ^ 42" by (simp add: pow2_def)
  have "pow2 42 \<le> pow2 1023" by (rule pow2_mono) simp
  then show "(2::rat) ^ 42 \<le> pow2 1023" by (simp add: pow2_def)
qed

lemma fl_ratio:
  fixes a b :: nat
  assumes "0 < a" "a < 2 ^ 40" "0 < b" "b < 2 ^ 40"
  defines "q \<equiv> (of_nat a / of_nat b :: rat)"
  shows "\<exists>y. fl q = Num y \<and> \<bar>y - q\<bar> \<le> q / 2 ^ 53 \<and> \<bar>y - q\<bar> < 1 / of_nat b \<and> 0 < y"
proof -
  have ar: "(1::rat) \<le> of_nat a" "(of_nat a :: rat) < 2 ^ 40"
  proof -
    show "(1::rat) \<le> of_nat a" using assms(1) by simp
    have "(of_nat a :: rat) < of_nat (2 ^ 40)" using assms(2) by (simp only: of_nat_less_iff)
    then show "(of_nat a :: rat) < 2 ^ 40" by simp
  qed
  have br: "(1::rat) \<le> of_nat b" "(of_nat b :: rat) < 2 ^ 40"
  proof -
    show "(1::rat) \<le> of_nat b" using assms(3) by simp
    have "(of_nat b :: rat) < of_nat (2 ^ 40)" using assms(4) by (simp only: of_nat_less_iff)
    then show "(of_nat b :: rat) < 2 ^ 40" by simp
  qed
  have bp: "(0::rat) < of_nat b" using br by linarith
  have ql: "1 / 2 ^ 40 < q"
  proof -
    have "(of_nat b :: rat) < of_nat a * 2 ^ 40"
    proof -
      have "(of_nat b :: rat) < 1 * 2 ^ 40" using br by simp
      also have "\<dots> \<le> of_nat a * 2 ^ 40" using ar(1) by (intro mult_right_mono) simp_all
      finally show ?thesis .
    qed
    then show ?thesis using bp by (simp add: q_def field_simps)
  qed
  have qu: "q < 2 ^ 40"
  proof -
    have "q \<le> of_nat a" using ar br bp by (simp add: q_def field_simps mult_le_cancel_left1)
    then show ?thesis using ar by linarith
  qed
  have qp: "0 < q" using assms(1) bp by (simp add: q_def)
  have "pow2 (- 1022) \<le> q" using pow2_numeral_bounds(1) ql by simp
  moreover have "q < pow2 1023" using pow2_numeral_bounds(2) qu by simp
  ultimately obtain y where y: "fl q = Num y" "\<bar>y - q\<bar> \<le> q / 2 ^ 53"
    using fl_relative_error by blast
  have "q / 2 ^ 53 < 1 / of_nat b"
  proof -
    have "q / 2 ^ 53 = (of_nat a / 2 ^ 53) / of_nat b" by (simp add: q_def)
    also have "\<dots> < 1 / of_nat b"
      using ar bp by (intro divide_strict_right_mono) simp_all
    finally show ?thesis .
  qed
  then have s: "\<bar>y - q\<bar> < 1 / of_nat b" using y(2) by linarith
  have "q / 2 ^ 53 < q" using qp by simp
  then have "0 < y" using y(2) by linarith
  with y s show ?thesis by blast
qed

lemma of_nat_bound40:
  "n < 2 ^ 40 \<Longrightarrow> (of_nat n :: rat) < 2 ^ 40"
proof -
  assume "n < 2 ^ 40"
  then have "(of_nat n :: rat) < of_nat (2 ^ 40)" by (simp only: of_nat_less_iff)
  then show ?thesis by simp
qed

lemma fl_small:
  assumes "1 / 2 ^ 42 \<le> u" "u \<le> 1024"
  shows "\<exists>z. fl u = Num z \<and> \<bar>z - u\<bar> \<le> 1024 / 2 ^ 53"
proof -
  have "pow2 (- 1022) \<le> u" using pow2_numeral_bounds(1) assms(1) by linarith
  moreover have "u < pow2 1023" using pow2_numeral_bounds(2) assms(2) by simp
  ultimately obtain z where z: "fl u = Num z" "\<bar>z - u\<bar> \<le> u / 2 ^ 53"
    using fl_relative_error by blast
  have "u / 2 ^ 53 \<le> 1024 / 2 ^ 53" using assms(2) by simp
  with z show ?thesis by fastforce
qed

lemma landscape_height:
  fixes a b :: nat
  assumes b: "0 < b" and ba: "b \<le> a" and a40: "a < 2 ^ 40"
  defines "x \<equiv> (1024 * of_nat b / of_nat a :: rat)"
  shows "\<exists>y s. num_div (Num (of_nat a)) (Num (of_nat b)) = Num y \<and> 1 \<le> y
           \<and> Math_round (num_div (Num 1024) (Num y)) = Num (of_int s)
           \<and> (s = \<lfloor>x + 1 / 2\<rfloor> \<or> (s = \<lfloor>x + 1 / 2\<rfloor> - 1 \<and> x = of_int s + 1 / 2))"
proof -
  define q :: rat where "q = of_nat a / of_nat b"
  have a: "0 < a" using b ba by simp
  have b40: "b < 2 ^ 40" using ba a40 by simp
  have ar: "(0::rat) < of_nat a" and br: "(0::rat) < of_nat b" using a b by simp_all
  obtain y where y: "fl q = Num y" "\<bar>y - q\<bar> \<le> q / 2 ^ 53" "\<bar>y - q\<bar> < 1 / of_nat b" "0 < y"
    using fl_ratio [OF a a40 b b40] unfolding q_def by blast
  have q1: "1 \<le> q" using ba br by (simp add: q_def)
  have qp: "0 < q" using q1 by linarith
  have y1: "1 \<le> y"
  proof (cases "a = b")
    case True
    then have "q = of_nat 1" using br by (simp add: q_def)
    then have "fl q = Num 1" using fl_of_nat [of 1] by simp
    with y(1) show ?thesis by simp
  next
    case False
    then have "b + 1 \<le> a" using ba by simp
    then have "(of_nat (b + 1) :: rat) \<le> of_nat a" by (simp only: of_nat_le_iff)
    then have "(of_nat b + 1) / of_nat b \<le> (of_nat a / of_nat b :: rat)"
      using br by (simp add: divide_right_mono)
    moreover have "(of_nat b + 1) / of_nat b = (1 + 1 / of_nat b :: rat)"
      using br by (simp add: add_divide_distrib)
    ultimately have "1 + 1 / of_nat b \<le> q" by (simp add: q_def)
    then show ?thesis using y(3) by linarith
  qed
  have dv: "num_div (Num (of_nat a)) (Num (of_nat b)) = Num y"
    using b y(1) by (simp add: q_def)
  define u where "u = 1024 / y"
  have yu: "y < 2 ^ 41"
  proof -
    have "q \<le> of_nat a" using ar br b by (simp add: q_def field_simps mult_le_cancel_left1)
    then have A: "q < 2 ^ 40" using of_nat_bound40 [OF a40] by linarith
    have "1 / of_nat b \<le> (1::rat)" using b by simp
    then have B: "y \<le> q + q" using y(3) q1 by linarith
    have "(2::rat) ^ 41 = 2 ^ 40 + 2 ^ 40" by simp
    then show ?thesis using A B by linarith
  qed
  have ul: "1 / 2 ^ 42 \<le> u"
    using yu y(4) by (simp add: u_def field_simps)
  have uu: "u \<le> 1024" using y1 by (simp add: u_def field_simps)
  obtain z where z: "fl u = Num z" "\<bar>z - u\<bar> \<le> 1024 / 2 ^ 53"
    using fl_small [OF ul uu] by blast
  have x: "x = 1024 / q" by (simp add: x_def q_def)
  have "u - x = 1024 * ((q - y) / (y * q))"
    using y(4) qp by (simp add: u_def x field_simps)
  then have "\<bar>u - x\<bar> = \<bar>1024\<bar> * (\<bar>q - y\<bar> / (\<bar>y\<bar> * \<bar>q\<bar>))"
    by (simp only: abs_mult abs_divide)
  also have "\<dots> = 1024 * (\<bar>q - y\<bar> / (y * q))"
    using y(4) qp by (simp only: abs_of_pos abs_numeral)
  finally have e0: "\<bar>u - x\<bar> = 1024 * (\<bar>q - y\<bar> / (y * q))" .
  define eps :: rat where "eps = 1 / 2 ^ 53"
  have eps: "0 < eps" by (simp add: eps_def)
  have m1: "\<bar>q - y\<bar> \<le> q * eps" using y(2) by (simp add: eps_def abs_minus_commute)
  have p: "0 < y * q" using y(4) qp by simp
  have "\<bar>q - y\<bar> / (y * q) \<le> (q * eps) / (y * q)"
    using m1 p by (intro divide_right_mono) simp_all
  also have "\<dots> = eps / y" using qp by simp
  also have "\<dots> \<le> eps / 1" using y1 eps by (intro divide_left_mono) simp_all
  finally have "1024 * (\<bar>q - y\<bar> / (y * q)) \<le> 1024 * eps" by simp
  then have ux: "\<bar>u - x\<bar> \<le> 1024 * eps" by (simp only: e0)
  have "\<bar>z - u\<bar> \<le> 1024 * eps" using z(2) by (simp add: eps_def)
  then have "\<bar>z - x\<bar> \<le> 2048 * eps" using ux by linarith
  then have zx: "\<bar>z - x\<bar> \<le> 1 / 2 ^ 42" by (simp add: eps_def)
  have "1 / 2 ^ 42 < 1 / (2 * (of_nat a :: rat))"
    using of_nat_bound40 [OF a40] ar by (simp add: field_simps)
  then have "\<bar>z - of_int (1024 * int b) / of_int (int a)\<bar> < 1 / (2 * of_int (int a))"
    using zx by (simp add: x_def)
  moreover have "0 < int a" using a by simp
  ultimately have "\<lfloor>z + 1 / 2\<rfloor> = \<lfloor>of_int (1024 * int b) / of_int (int a) + 1 / 2 :: rat\<rfloor>
      \<or> (\<lfloor>z + 1 / 2\<rfloor> = \<lfloor>of_int (1024 * int b) / of_int (int a) + 1 / 2 :: rat\<rfloor> - 1
          \<and> (of_int (1024 * int b) / of_int (int a) :: rat) = of_int \<lfloor>z + 1 / 2\<rfloor> + 1 / 2)"
    by (rule nearest_integer_stable [rotated])
  then have st: "\<lfloor>z + 1 / 2\<rfloor> = \<lfloor>x + 1 / 2\<rfloor>
      \<or> (\<lfloor>z + 1 / 2\<rfloor> = \<lfloor>x + 1 / 2\<rfloor> - 1 \<and> x = of_int \<lfloor>z + 1 / 2\<rfloor> + 1 / 2)"
    by (simp add: x_def)
  have "Math_round (num_div (Num 1024) (Num y)) = Num (of_int \<lfloor>z + 1 / 2\<rfloor>)"
    using y(4) z(1) by (simp add: u_def)
  with dv y1 st show ?thesis by blast
qed

lemma portrait_width:
  fixes a b :: nat
  assumes a: "0 < a" and ab: "a < b" and b40: "b < 2 ^ 40"
  defines "x \<equiv> (1024 * of_nat a / of_nat b :: rat)"
  shows "\<exists>y. num_div (Num (of_nat a)) (Num (of_nat b)) = Num y \<and> y < 1
           \<and> Math_round (num_mul (Num 1024) (Num y)) = Num (of_int \<lfloor>x + 1 / 2\<rfloor>)"
proof -
  define q :: rat where "q = of_nat a / of_nat b"
  have b: "0 < b" using a ab by simp
  have a40: "a < 2 ^ 40" using ab b40 by simp
  have ar: "(0::rat) < of_nat a" and br: "(0::rat) < of_nat b" using a b by simp_all
  obtain y where y: "fl q = Num y" "\<bar>y - q\<bar> \<le> q / 2 ^ 53" "\<bar>y - q\<bar> < 1 / of_nat b" "0 < y"
    using fl_ratio [OF a a40 b b40] unfolding q_def by blast
  have qp: "0 < q" using ar br by (simp add: q_def)
  have x: "x = 1024 * q" by (simp add: x_def q_def)
  have q1: "q + 1 / of_nat b \<le> 1"
  proof -
    have "a + 1 \<le> b" using ab by simp
    then have "(of_nat (a + 1) :: rat) \<le> of_nat b" by (simp only: of_nat_le_iff)
    then have "(of_nat a + 1) / of_nat b \<le> (of_nat b / of_nat b :: rat)"
      using br by (simp add: divide_right_mono)
    moreover have "(of_nat a + 1) / of_nat b = (of_nat a / of_nat b + 1 / of_nat b :: rat)"
      by (simp add: add_divide_distrib)
    ultimately show ?thesis using br by (simp add: q_def)
  qed
  have y1: "y < 1" using y(3) q1 by linarith
  have "0 < 1 / (of_nat b :: rat)" using br by simp
  then have qlt1: "q < 1" using q1 by linarith
  have dv: "num_div (Num (of_nat a)) (Num (of_nat b)) = Num y"
    using b y(1) by (simp add: q_def)
  have mul: "num_mul (Num 1024) (Num y) = fl (1024 * y)" by simp
  show ?thesis
  proof (cases "\<exists>k::int. x = of_int k + 1 / 2")
    case True
    then obtain k :: int where k: "x = of_int k + 1 / 2" by blast
    have xp: "0 < x" using qp by (simp add: x)
    have "(- 1 :: rat) < of_int k" using xp k by linarith
    then have "- 1 < k" by (metis of_int_less_iff of_int_minus of_int_1)
    then have k0: "0 \<le> k" by simp
    have "x < 1024" using qlt1 x by simp
    then have "(of_int k :: rat) < of_int 1024" using k by simp
    then have k1: "k < 1024" by (simp only: of_int_less_iff)
    define n where "n = nat (2 * k + 1)"
    have n: "0 < n" "n < 2 ^ 53" using k0 k1 by (simp_all add: n_def)
    have nr: "(of_nat n :: rat) = 2 * of_int k + 1"
      using k0 by (simp add: n_def)
    have qn: "q = of_nat n / 2 ^ 11" using k x by (simp add: nr)
    have "fl q = Num q" unfolding qn by (rule fl_dyadic [OF n]) simp
    then have yq: "y = q" using y(1) by simp
    have qm: "1024 * q = of_nat n / 2 ^ 1" using k x by (simp add: nr)
    have "fl (1024 * q) = Num (1024 * q)" unfolding qm by (rule fl_dyadic [OF n]) simp
    then have "Math_round (num_mul (Num 1024) (Num y)) = Num (of_int \<lfloor>x + 1 / 2\<rfloor>)"
      by (simp add: yq x)
    with dv y1 show ?thesis by blast
  next
    case False
    define u where "u = 1024 * y"
    have "q / 2 ^ 53 \<le> q / 2" using qp by simp
    then have yl: "q / 2 \<le> y" using y(2) by linarith
    have ql: "1 / 2 ^ 40 < q"
    proof -
      have "1 / (2 ^ 40 :: rat) < 1 / of_nat b"
        using of_nat_bound40 [OF b40] br by (simp add: field_simps)
      also have "\<dots> \<le> of_nat a / of_nat b"
        using a br by (intro divide_right_mono) simp_all
      finally show ?thesis by (simp add: q_def)
    qed
    have ul: "1 / 2 ^ 42 \<le> u" using yl ql by (simp add: u_def)
    have uu: "u \<le> 1024" using y1 by (simp add: u_def)
    obtain z where z: "fl u = Num z" "\<bar>z - u\<bar> \<le> 1024 / 2 ^ 53"
      using fl_small [OF ul uu] by blast
    define eps :: rat where "eps = 1 / 2 ^ 53"
    have "q * eps \<le> 1 * eps" using qlt1 by (intro mult_right_mono) (simp_all add: eps_def)
    then have ye: "\<bar>y - q\<bar> \<le> eps" using y(2) by (simp add: eps_def)
    have "u - x = 1024 * (y - q)" unfolding u_def x by (rule right_diff_distrib [symmetric])
    then have "\<bar>u - x\<bar> = 1024 * \<bar>y - q\<bar>" by (simp only: abs_mult abs_numeral)
    then have "\<bar>u - x\<bar> \<le> 1024 * eps" using ye by simp
    moreover have "\<bar>z - u\<bar> \<le> 1024 * eps" using z(2) by (simp add: eps_def)
    ultimately have "\<bar>z - x\<bar> \<le> 2048 * eps" by linarith
    then have zx: "\<bar>z - x\<bar> \<le> 1 / 2 ^ 42" by (simp add: eps_def)
    have "1 / 2 ^ 42 < 1 / (2 * (of_nat b :: rat))"
      using of_nat_bound40 [OF b40] br by (simp add: field_simps)
    then have "\<bar>z - of_int (1024 * int a) / of_int (int b)\<bar> < 1 / (2 * of_int (int b))"
      using zx by (simp add: x_def)
    moreover have "0 < int b" using b by simp
    ultimately have "\<lfloor>z + 1 / 2\<rfloor> = \<lfloor>of_int (1024 * int a) / of_int (int b) + 1 / 2 :: rat\<rfloor>
        \<or> (\<lfloor>z + 1 / 2\<rfloor> = \<lfloor>of_int (1024 * int a) / of_int (int b) + 1 / 2 :: rat\<rfloor> - 1
            \<and> (of_int (1024 * int a) / of_int (int b) :: rat) = of_int \<lfloor>z + 1 / 2\<rfloor> + 1 / 2)"
      by (rule nearest_integer_stable [rotated])
    then have "\<lfloor>z + 1 / 2\<rfloor> = \<lfloor>x + 1 / 2\<rfloor>
        \<or> (\<lfloor>z + 1 / 2\<rfloor> = \<lfloor>x + 1 / 2\<rfloor> - 1 \<and> x = of_int \<lfloor>z + 1 / 2\<rfloor> + 1 / 2)"
      by (simp add: x_def)
    with False have "\<lfloor>z + 1 / 2\<rfloor> = \<lfloor>x + 1 / 2\<rfloor>" by blast
    then have "Math_round (num_mul (Num 1024) (Num y)) = Num (of_int \<lfloor>x + 1 / 2\<rfloor>)"
      using z(1) by (simp add: u_def)
    with dv y1 show ?thesis by blast
  qed
qed

subsection \<open>Aspect-Ratio Resolver\<close>

lemma is_digit_colon [simp]: "\<not> is_digit CHR '':''"
  by (simp add: is_digit_def char_code_def)

lemma is_digit_not_space: "is_digit c \<Longrightarrow> \<not> is_space c"
  by (auto simp: is_digit_def is_space_def)

lemma lower_char_digit: "is_digit c \<Longrightarrow> lower_char c = c"
  by (auto simp: lower_char_def is_digit_def Let_def)

lemma lower_char_colon [simp]: "lower_char CHR '':'' = CHR '':''"
  by (simp add: lower_char_def char_code_def)

lemma toLowerCase_digits: "list_all is_digit g \<Longrightarrow> toLowerCase g = g"
  by (induction g) (simp_all add: toLowerCase_def lower_char_digit)

lemma trim_unchanged:
  assumes "s \<noteq> []" "\<not> is_space (hd s)" "\<not> is_space (last s)"
  shows "trim s = s"
proof -
  have "dropWhile is_space s = s" using assms(1,2) by (cases s) simp_all
  moreover have "dropWhile is_space (rev s) = rev s"
    using assms(1,3) by (cases "rev s") (simp_all add: last_rev [symmetric] del: last_rev)
  ultimately show ?thesis by (simp add: trim_def)
qed

lemma ratio_token:
  assumes "g1 \<noteq> []" "g2 \<noteq> []" "list_all is_digit g1" "list_all is_digit g2"
  defines "r \<equiv> g1 @ '':'' @ g2"
  shows "match_ratio r = Some (g1, g2)" and "trim (toLowerCase r) = r"
    and "r \<notin> set Object_prototype_keys" and "r \<noteq> []"
proof -
  have d1: "\<And>c. c \<in> set g1 \<Longrightarrow> is_digit c" using assms(3) by (simp add: list_all_iff)
  have "takeWhile is_digit r = g1" "dropWhile is_digit r = CHR '':'' # g2"
    using d1 by (simp_all add: r_def takeWhile_append2 dropWhile_append2)
  then show "match_ratio r = Some (g1, g2)"
    using assms by (simp add: match_ratio_def)
  have low: "toLowerCase r = r"
    using toLowerCase_digits [OF assms(3)] toLowerCase_digits [OF assms(4)]
    by (simp add: r_def toLowerCase_def)
  have h: "is_digit (hd r)" using assms(1) d1 by (cases g1) (simp_all add: r_def)
  have "last r = last g2" using assms(2) by (simp add: r_def)
  moreover have "last g2 \<in> set g2" using assms(2) by simp
  ultimately have l: "is_digit (last r)" using assms(4) by (simp add: list_all_iff)
  show ne: "r \<noteq> []" by (simp add: r_def)
  show "trim (toLowerCase r) = r"
    unfolding low using ne h l by (intro trim_unchanged is_digit_not_space)
  show "r \<notin> set Object_prototype_keys"
  proof
    assume "r \<in> set Object_prototype_keys"
    then have "\<not> is_digit (hd r)"
      by (auto simp: Object_prototype_keys_def is_digit_def char_code_def)
    with h show False by simp
  qed
qed

lemma parseInt_small:
  assumes "0 < digits_value g" "digits_value g < 2 ^ 40"
  shows "parseInt g = Num (of_nat (digits_value g))"
proof -
  have "digits_value g < 2 ^ 53"
  proof -
    have "(2::nat) ^ 40 \<le> 2 ^ 53" by simp
    with assms(2) show ?thesis by linarith
  qed
  then show ?thesis using assms(1) by (simp add: parseInt_def fl_of_nat)
qed

lemma parseAspectRatio_custom:
  fixes g1 g2 :: string
  defines "r \<equiv> g1 @ '':'' @ g2"
  defines "a \<equiv> digits_value g1" and "b \<equiv> digits_value g2"
  defines "x \<equiv> (1024 * of_nat (min a b) / of_nat (max a b) :: rat)"
  assumes g: "g1 \<noteq> []" "g2 \<noteq> []" "list_all is_digit g1" "list_all is_digit g2"
      and a: "0 < a" "a < 2 ^ 40" and b: "0 < b" "b < 2 ^ 40"
      and t: "map_of ASPECT_RATIOS r = None"
  shows "\<exists>s. parseAspectRatio (Some r) =
              Some (Descriptor (if b \<le> a then \<lparr>width = Num 1024, height = Num (of_int s), name = r\<rparr>
                                else \<lparr>width = Num (of_int s), height = Num 1024, name = r\<rparr>))
           \<and> (s = \<lfloor>x + 1 / 2\<rfloor> \<or> (b < a \<and> s = \<lfloor>x + 1 / 2\<rfloor> - 1 \<and> x = of_int s + 1 / 2))"
proof -
  note tok = ratio_token [OF g, folded r_def]
  have pa: "parseInt g1 = Num (of_nat a)" and pb: "parseInt g2 = Num (of_nat b)"
    using a b by (simp_all add: a_def b_def parseInt_small)
  have unfold: "parseAspectRatio (Some r) =
      (let aspectRatio = num_div (Num (of_nat a)) (Num (of_nat b))
       in if num_ge aspectRatio (Num 1)
          then Some (Descriptor \<lparr>width = Num 1024,
                 height = Math_round (num_div (Num 1024) aspectRatio), name = r\<rparr>)
          else Some (Descriptor \<lparr>width = Math_round (num_mul (Num 1024) aspectRatio),
                 height = Num 1024, name = r\<rparr>))"
    using tok t by (simp add: parseAspectRatio_def pa pb Let_def)
  show ?thesis
  proof (cases "b \<le> a")
    case True
    then have x: "x = 1024 * of_nat b / of_nat a" by (simp add: x_def min_def max_def)
    obtain y s where ys: "num_div (Num (of_nat a)) (Num (of_nat b)) = Num y" "1 \<le> y"
        "Math_round (num_div (Num 1024) (Num y)) = Num (of_int s)"
        "s = \<lfloor>x + 1 / 2\<rfloor> \<or> (s = \<lfloor>x + 1 / 2\<rfloor> - 1 \<and> x = of_int s + 1 / 2)"
      using landscape_height [OF b(1) True a(2)] unfolding x by blast
    have "parseAspectRatio (Some r) =
        Some (Descriptor \<lparr>width = Num 1024, height = Num (of_int s), name = r\<rparr>)"
      using ys(1,2,3) by (simp add: unfold Let_def)
    moreover have "s = \<lfloor>x + 1 / 2\<rfloor> \<or> (b < a \<and> s = \<lfloor>x + 1 / 2\<rfloor> - 1 \<and> x = of_int s + 1 / 2)"
    proof (cases "a = b")
      case True
      then have x1: "x = 1024" using b(1) by (simp add: x)
      have f: "\<lfloor>(1024::rat) + 1 / 2\<rfloor> = 1024" by (simp add: floor_eq_iff)
      have "s = \<lfloor>x + 1 / 2\<rfloor>"
      proof (rule ccontr)
        assume "s \<noteq> \<lfloor>x + 1 / 2\<rfloor>"
        then have "s = 1023" "x = of_int s + 1 / 2" using ys(4) by (simp_all add: x1 f)
        then show False by (simp add: x1)
      qed
      then show ?thesis by blast
    next
      case False
      then show ?thesis using \<open>b \<le> a\<close> ys(4) by auto
    qed
    ultimately show ?thesis using True by auto
  next
    case False
    then have ab: "a < b" by simp
    then have x: "x = 1024 * of_nat a / of_nat b" by (simp add: x_def min_def max_def)
    obtain y where y: "num_div (Num (of_nat a)) (Num (of_nat b)) = Num y" "y < 1"
        "Math_round (num_mul (Num 1024) (Num y)) = Num (of_int \<lfloor>x + 1 / 2\<rfloor>)"
      using portrait_width [OF a(1) ab b(2)] unfolding x by blast
    have "parseAspectRatio (Some r) =
        Some (Descriptor \<lparr>width = Num (of_int \<lfloor>x + 1 / 2\<rfloor>), height = Num 1024, name = r\<rparr>)"
      using y by (simp add: unfold Let_def)
    then show ?thesis using False by auto
  qed
qed

lemma parseAspectRatio_named:
  assumes "map_of ASPECT_RATIOS (trim (toLowerCase r)) = Some cfg"
  shows "parseAspectRatio (Some r) = Some (Descriptor cfg)"
proof (cases "r = []")
  case True
  with assms show ?thesis by (simp add: trim_def toLowerCase_def ASPECT_RATIOS_def)
next
  case False
  with assms show ?thesis by (simp add: parseAspectRatio_def)
qed


lemma fl_2048_93: "fl (2048 / 93) = Num (3099251356470019 / 140737488355328)"
proof -
  have "fl (2048 / 93) = Num (of_int 6198502712940038 * pow2 (4 - 52))"
  proof (rule fl_certificate(1))
    show "round_half_even (2048 / 93 / pow2 (4 - 52)) = 6198502712940038"
      by (rule round_half_even_unique) (simp add: pow2_def)
  qed (simp_all add: pow2_def)
  then show ?thesis by (simp add: pow2_def)
qed

lemma fl_1024_over: "fl (144115188075855872 / 3099251356470019)
    = Num (6544293208522751 / 140737488355328)"
proof -
  have "fl (144115188075855872 / 3099251356470019)
      = Num (of_int 6544293208522751 * pow2 (5 - 52))"
  proof (rule fl_certificate(1))
    show "round_half_even (144115188075855872 / 3099251356470019 / pow2 (5 - 52))
        = 6544293208522751"
      by (rule round_half_even_unique) (simp add: pow2_def)
  qed (simp_all add: pow2_def)
  then show ?thesis by (simp add: pow2_def)
qed

lemma digits_value_2048 [simp]: "digits_value ''2048'' = 2048" "digits_value ''93'' = 93"
  by (simp_all add: digits_value_def char_code_def)

lemma match_2048_93: "match_ratio ''2048:93'' = Some (''2048'', ''93'')"
  by (simp add: match_ratio_def is_digit_def char_code_def)

lemma normalized_2048_93: "trim (toLowerCase ''2048:93'') = ''2048:93''"
  by (simp add: trim_def toLowerCase_def lower_char_def is_space_def char_code_def Let_def)


text \<open>
  Claim C2, as the code has it. (1) The table holds the documented pairs, and a token whose
  lower-cased, trimmed form is a key of the table resolves to that entry. (2) Any other token
  \<open>a:b\<close> of decimal digits with \<open>0 < a, b < 2^40\<close> resolves to a descriptor whose larger side
  is 1024 (the width when \<open>a \<ge> b\<close>, the height otherwise) and whose smaller side \<open>s\<close> is
  \<open>1024 * min a b / max a b\<close> rounded to the nearest integer, a tie going up; only when
  \<open>a > b\<close> and that quotient lies exactly halfway between two integers may \<open>s\<close> be the lower
  of the two instead, since the quotient is computed by two double divisions. (3) A token
  that is neither a key, nor an inherited property name of the table object, nor of the form
  digits-colon-digits resolves to \<open>null\<close>, as does an absent token.
\<close>

theorem parseAspectRatio_resolves:
  fixes r :: string
  defines "normalized \<equiv> trim (toLowerCase r)"
  shows "map (\<lambda>(k, c). (k, width c, height c)) ASPECT_RATIOS =
           [(''1:1'', Num 1024, Num 1024), (''square'', Num 1024, Num 1024),
            (''16:9'', Num 1024, Num 576), (''landscape'', Num 1024, Num 576),
            (''9:16'', Num 576, Num 1024), (''portrait'', Num 576, Num 1024),
            (''4:3'', Num 1024, Num 768), (''3:4'', Num 768, Num 1024),
            (''16:10'', Num 1024, Num 640), (''widescreen'', Num 1024, Num 640),
            (''21:9'', Num 1024, Num 439), (''ultrawide'', Num 1024, Num 439),
            (''2:1'', Num 1024, Num 512), (''panoramic'', Num 1024, Num 512)]
       \<and> (\<forall>cfg. map_of ASPECT_RATIOS normalized = Some cfg \<longrightarrow>
              parseAspectRatio (Some r) = Some (Descriptor cfg))
       \<and> (\<forall>g1 g2. r = g1 @ '':'' @ g2 \<and> g1 \<noteq> [] \<and> g2 \<noteq> []
              \<and> list_all is_digit g1 \<and> list_all is_digit g2
              \<and> 0 < digits_value g1 \<and> digits_value g1 < 2 ^ 40
              \<and> 0 < digits_value g2 \<and> digits_value g2 < 2 ^ 40
              \<and> map_of ASPECT_RATIOS r = None \<longrightarrow>
              (let a = digits_value g1; b = digits_value g2;
                   x = (1024 * of_nat (min a b) / of_nat (max a b) :: rat)
               in \<exists>s. parseAspectRatio (Some r) =
                        Some (Descriptor
                          (if b \<le> a
                           then \<lparr>width = Num 1024, height = Num (of_int s), name = r\<rparr>
                           else \<lparr>width = Num (of_int s), height = Num 1024, name = r\<rparr>))
                     \<and> (s = \<lfloor>x + 1 / 2\<rfloor>
                          \<or> (b < a \<and> s = \<lfloor>x + 1 / 2\<rfloor> - 1 \<and> x = of_int s + 1 / 2))))
       \<and> (map_of ASPECT_RATIOS normalized = None \<and> normalized \<notin> set Object_prototype_keys
              \<and> match_ratio r = None \<longrightarrow> parseAspectRatio (Some r) = None)
       \<and> parseAspectRatio None = None"
proof (intro conjI allI impI)
  show "map (\<lambda>(k, c). (k, width c, height c)) ASPECT_RATIOS =
           [(''1:1'', Num 1024, Num 1024), (''square'', Num 1024, Num 1024),
            (''16:9'', Num 1024, Num 576), (''landscape'', Num 1024, Num 576),
            (''9:16'', Num 576, Num 1024), (''portrait'', Num 576, Num 1024),
            (''4:3'', Num 1024, Num 768), (''3:4'', Num 768, Num 1024),
            (''16:10'', Num 1024, Num 640), (''widescreen'', Num 1024, Num 640),
            (''21:9'', Num 1024, Num 439), (''ultrawide'', Num 1024, Num 439),
            (''2:1'', Num 1024, Num 512), (''panoramic'', Num 1024, Num 512)]"
    by (simp add: ASPECT_RATIOS_def)
next
  fix cfg assume "map_of ASPECT_RATIOS normalized = Some cfg"
  then show "parseAspectRatio (Some r) = Some (Descriptor cfg)"
    unfolding normalized_def by (rule parseAspectRatio_named)
next
  fix g1 g2
  assume h: "r = g1 @ '':'' @ g2 \<and> g1 \<noteq> [] \<and> g2 \<noteq> []
              \<and> list_all is_digit g1 \<and> list_all is_digit g2
              \<and> 0 < digits_value g1 \<and> digits_value g1 < 2 ^ 40
              \<and> 0 < digits_value g2 \<and> digits_value g2 < 2 ^ 40
              \<and> map_of ASPECT_RATIOS r = None"
  then have r: "r = g1 @ '':'' @ g2" by blast
  from h have t: "map_of ASPECT_RATIOS (g1 @ '':'' @ g2) = None" by blast
  from h have g: "g1 \<noteq> []" "g2 \<noteq> []" "list_all is_digit g1" "list_all is_digit g2"
    and a: "0 < digits_value g1" "digits_value g1 < 2 ^ 40"
    and b: "0 < digits_value g2" "digits_value g2 < 2 ^ 40" by blast+
  show "let a = digits_value g1; b = digits_value g2;
            x = (1024 * of_nat (min a b) / of_nat (max a b) :: rat)
        in \<exists>s. parseAspectRatio (Some r) =
                 Some (Descriptor
                   (if b \<le> a
                    then \<lparr>width = Num 1024, height = Num (of_int s), name = r\<rparr>
                    else \<lparr>width = Num (of_int s), height = Num 1024, name = r\<rparr>))
              \<and> (s = \<lfloor>x + 1 / 2\<rfloor>
                   \<or> (b < a \<and> s = \<lfloor>x + 1 / 2\<rfloor> - 1 \<and> x = of_int s + 1 / 2))"
    unfolding Let_def r by (rule parseAspectRatio_custom [OF g a b t])
next
  assume "map_of ASPECT_RATIOS normalized = None \<and> normalized \<notin> set Object_prototype_keys
              \<and> match_ratio r = None"
  then show "parseAspectRatio (Some r) = None"
    by (simp add: parseAspectRatio_def normalized_def)
next
  show "parseAspectRatio None = None" by (simp add: parseAspectRatio_def)
qed


theorem parseAspectRatio_resolves_witness:
  "parseAspectRatio (Some '' SQUARE'')
     = Some (Descriptor \<lparr>width = Num 1024, height = Num 1024, name = ''square''\<rparr>)
   \<and> parseAspectRatio (Some ''5:4'')
     = Some (Descriptor \<lparr>width = Num 1024, height = Num 819, name = ''5:4''\<rparr>)
   \<and> parseAspectRatio (Some ''banana'') = None"
proof (intro conjI)
  note ev = trim_def toLowerCase_def lower_char_def is_space_def char_code_def Let_def
    ASPECT_RATIOS_def
  have "map_of ASPECT_RATIOS (trim (toLowerCase '' SQUARE''))
      = Some \<lparr>width = Num 1024, height = Num 1024, name = ''square''\<rparr>"
    by (simp add: ev)
  then show "parseAspectRatio (Some '' SQUARE'')
     = Some (Descriptor \<lparr>width = Num 1024, height = Num 1024, name = ''square''\<rparr>)"
    by (rule parseAspectRatio_resolves
          [THEN conjunct2, THEN conjunct1, rule_format])
next
  have "''5:4'' = ''5'' @ '':'' @ ''4'' \<and> ''5'' \<noteq> [] \<and> ''4'' \<noteq> []
      \<and> list_all is_digit ''5'' \<and> list_all is_digit ''4''
      \<and> 0 < digits_value ''5'' \<and> digits_value ''5'' < 2 ^ 40
      \<and> 0 < digits_value ''4'' \<and> digits_value ''4'' < 2 ^ 40
      \<and> map_of ASPECT_RATIOS ''5:4'' = None"
    by (simp add: is_digit_def digits_value_def char_code_def ASPECT_RATIOS_def)
  from parseAspectRatio_resolves
         [THEN conjunct2, THEN conjunct2, THEN conjunct1, rule_format, OF this]
  obtain s where s: "parseAspectRatio (Some ''5:4'')
        = Some (Descriptor \<lparr>width = Num 1024, height = Num (of_int s), name = ''5:4''\<rparr>)"
      "s = \<lfloor>(4096 / 5 :: rat) + 1 / 2\<rfloor>
         \<or> (s = \<lfloor>(4096 / 5 :: rat) + 1 / 2\<rfloor> - 1 \<and> (4096 / 5 :: rat) = of_int s + 1 / 2)"
    by (auto simp: Let_def digits_value_def char_code_def)
  have f: "\<lfloor>(4096 / 5 :: rat) + 1 / 2\<rfloor> = 819" by (simp add: floor_eq_iff)
  have "s = 819" using s(2) unfolding f by auto
  with s(1) show "parseAspectRatio (Some ''5:4'')
     = Some (Descriptor \<lparr>width = Num 1024, height = Num 819, name = ''5:4''\<rparr>)"
    by simp
next
  have "map_of ASPECT_RATIOS (trim (toLowerCase ''banana'')) = None
      \<and> trim (toLowerCase ''banana'') \<notin> set Object_prototype_keys
      \<and> match_ratio ''banana'' = None"
    by (simp add: trim_def toLowerCase_def lower_char_def is_space_def char_code_def Let_def
          ASPECT_RATIOS_def Object_prototype_keys_def match_ratio_def is_digit_def)
  then show "parseAspectRatio (Some ''banana'') = None"
    by (rule parseAspectRatio_resolves
          [THEN conjunct2, THEN conjunct2, THEN conjunct2, THEN conjunct1, rule_format])
qed

text \<open>
  The token \<open>2048:93\<close>: \<open>1024 * 93 / 2048 = 46.5\<close> rounds to 47, but the double
  \<open>1024 / (2048 / 93)\<close> is just below 46.5 and the resolver returns 46. The token
  \<open>constructor\<close> is no key of the table, yet the lookup finds the inherited property and the
  resolver returns that object instead of \<open>null\<close>.
\<close>

theorem parseAspectRatio_tie_counterexample:
  "parseAspectRatio (Some ''2048:93'')
     = Some (Descriptor \<lparr>width = Num 1024, height = Num 46, name = ''2048:93''\<rparr>)
   \<and> \<lfloor>1024 * of_nat (min 2048 93) / of_nat (max 2048 93) + 1 / 2 :: rat\<rfloor> = 47
   \<and> parseAspectRatio (Some ''constructor'') = Some Builtin_object"
proof (intro conjI)
  have p1: "parseInt ''2048'' = Num 2048" and p2: "parseInt ''93'' = Num 93"
    using fl_of_nat [of 2048] fl_of_nat [of 93] by (simp_all add: parseInt_def)
  have f: "\<lfloor>(6614661952700415 / 140737488355328 :: rat)\<rfloor> = 46"
    by (simp add: floor_eq_iff)
  show "parseAspectRatio (Some ''2048:93'')
     = Some (Descriptor \<lparr>width = Num 1024, height = Num 46, name = ''2048:93''\<rparr>)"
    by (simp add: parseAspectRatio_def normalized_2048_93 match_2048_93 p1 p2
          ASPECT_RATIOS_def Object_prototype_keys_def fl_2048_93 fl_1024_over f Let_def)
  show "\<lfloor>1024 * of_nat (min 2048 93) / of_nat (max 2048 93) + 1 / 2 :: rat\<rfloor> = 47"
    by (simp add: floor_eq_iff)
  show "parseAspectRatio (Some ''constructor'') = Some Builtin_object"
    by (simp add: parseAspectRatio_def trim_def toLowerCase_def lower_char_def is_space_def
          char_code_def Let_def ASPECT_RATIOS_def Object_prototype_keys_def)
qed

subsection \<open>Prompt Composer\<close>


subsection \<open>Adapter Selector\<close>

text \<open>
  Claim C5. The selector returns none when neither credential is configured. When the
  preference names a backend, that backend is returned exactly when its own credential is
  configured, whatever the other backend's state, and nothing is returned otherwise (no
  fallback). When the preference is \<open>auto\<close> or absent, Gemini is returned whenever it is
  configured (so also when both are), and OpenRouter when only OpenRouter is configured.
\<close>

theorem selectProvider_policy:
  fixes srv :: NanoBananaMCPServer and preference :: "string option"
  defines "g \<equiv> isAvailable (geminiProvider srv)"
      and "r \<equiv> isAvailable (openRouterProvider srv)"
  shows "(\<not> g \<and> \<not> r \<longrightarrow> selectProvider srv preference = None)
       \<and> (preference = Some ''gemini'' \<longrightarrow>
            selectProvider srv preference = (if g then Some GeminiProvider else None))
       \<and> (preference = Some ''openrouter'' \<longrightarrow>
            selectProvider srv preference = (if r then Some OpenRouterProvider else None))
       \<and> (preference = Some ''auto'' \<or> preference = None \<longrightarrow>
            selectProvider srv preference =
              (if g then Some GeminiProvider else if r then Some OpenRouterProvider else None))"
  by (auto simp: selectProvider_def g_def r_def truthy_def)

theorem selectProvider_policy_witness:
  "selectProvider \<lparr>geminiProvider = \<lparr>apiKey = None\<rparr>,
                    openRouterProvider = \<lparr>apiKey = Some ''sk-or''\<rparr>\<rparr> (Some ''gemini'') = None
   \<and> selectProvider \<lparr>geminiProvider = \<lparr>apiKey = Some ''g-key''\<rparr>,
                    openRouterProvider = \<lparr>apiKey = Some ''sk-or''\<rparr>\<rparr> (Some ''auto'')
       = Some GeminiProvider
   \<and> selectProvider \<lparr>geminiProvider = \<lparr>apiKey = None\<rparr>,
                    openRouterProvider = \<lparr>apiKey = Some ''sk-or''\<rparr>\<rparr> None
       = Some OpenRouterProvider
   \<and> selectProvider \<lparr>geminiProvider = \<lparr>apiKey = Some ''g-key''\<rparr>,
                    openRouterProvider = \<lparr>apiKey = None\<rparr>\<rparr> (Some ''openrouter'') = None
   \<and> selectProvider \<lparr>geminiProvider = \<lparr>apiKey = None\<rparr>,
                    openRouterProvider = \<lparr>apiKey = Some ''''\<rparr>\<rparr> (Some ''auto'') = None"
  using selectProvider_policy
          [of "\<lparr>geminiProvider = \<lparr>apiKey = None\<rparr>,
                openRouterProvider = \<lparr>apiKey = Some ''sk-or''\<rparr>\<rparr>" "Some ''gemini''"]
        selectProvider_policy
          [of "\<lparr>geminiProvider = \<lparr>apiKey = Some ''g-key''\<rparr>,
                openRouterProvider = \<lparr>apiKey = Some ''sk-or''\<rparr>\<rparr>" "Some ''auto''"]
        selectProvider_policy
          [of "\<lparr>geminiProvider = \<lparr>apiKey = None\<rparr>,
                openRouterProvider = \<lparr>apiKey = Some ''sk-or''\<rparr>\<rparr>" "None"]
        selectProvider_policy
          [of "\<lparr>geminiProvider = \<lparr>apiKey = Some ''g-key''\<rparr>,
                openRouterProvider = \<lparr>apiKey = None\<rparr>\<rparr>" "Some ''openrouter''"]
        selectProvider_policy
          [of "\<lparr>geminiProvider = \<lparr>apiKey = None\<rparr>,
                openRouterProvider = \<lparr>apiKey = Some ''''\<rparr>\<rparr>" "Some ''auto''"]
  by (simp add: isAvailable_def truthy_def)

subsection \<open>Request payloads\<close>

lemma bind_Inr [simp]: "bind (Inr x) f = f x"
  by (simp add: bind_def)

lemma bind_Inl [simp]: "bind (Inl e) f = Inl e"
  by (simp add: bind_def)

lemma bind_eq_Inr: "bind m f = Inr y \<longleftrightarrow> (\<exists>x. m = Inr x \<and> f x = Inr y)"
  by (cases m) simp_all

lemma Gemini_add_image_reference:
  "Gemini_add_image w parts im =
     (case Gemini_reference w im of
        None \<Rightarrow> Inr parts
      | Some (Inl e) \<Rightarrow> Inl e
      | Some (Inr p) \<Rightarrow> Inr (parts @ [p]))"
  by (auto simp: Gemini_add_image_def Gemini_reference_def bind_def split: sum.splits prod.splits)

lemma OpenRouter_add_image_reference:
  "OpenRouter_add_image content im =
     (case OpenRouter_reference im of None \<Rightarrow> content | Some b \<Rightarrow> content @ [b])"
  by (simp add: OpenRouter_add_image_def OpenRouter_reference_def)

lemma Gemini_loop:
  "for_each (Gemini_add_image w) imgs acc = Inr ps \<Longrightarrow>
     ps = acc @ List.map_filter (resolved_part w) imgs
     \<and> (\<forall>im \<in> set imgs. \<forall>e. Gemini_reference w im \<noteq> Some (Inl e))"
proof (induction imgs arbitrary: acc)
  case Nil
  then show ?case by (simp add: List.map_filter_simps)
next
  case (Cons im imgs)
  show ?case
  proof (cases "Gemini_reference w im")
    case None
    then have "Gemini_add_image w acc im = Inr acc"
      by (simp add: Gemini_add_image_reference)
    with Cons.prems have "for_each (Gemini_add_image w) imgs acc = Inr ps" by simp
    from Cons.IH [OF this] None show ?thesis
      by (simp add: List.map_filter_simps resolved_part_def)
  next
    case (Some r)
    show ?thesis
    proof (cases r)
      case (Inl e)
      with Some have "Gemini_add_image w acc im = Inl e"
        by (simp add: Gemini_add_image_reference)
      with Cons.prems show ?thesis by simp
    next
      case (Inr p)
      with Some have "Gemini_add_image w acc im = Inr (acc @ [p])"
        by (simp add: Gemini_add_image_reference)
      with Cons.prems have "for_each (Gemini_add_image w) imgs (acc @ [p]) = Inr ps" by simp
      from Cons.IH [OF this] Some Inr show ?thesis
        by (simp add: List.map_filter_simps resolved_part_def)
    qed
  qed
qed

lemma OpenRouter_loop:
  "foldl OpenRouter_add_image acc imgs = acc @ List.map_filter OpenRouter_reference imgs"
  by (induction imgs arbitrary: acc)
    (simp_all add: List.map_filter_simps OpenRouter_add_image_reference split: option.splits)

lemma payload_shapes:
  fixes w :: world and args :: ImageGenerationArgs
  defines "cfg \<equiv> parseAspectRatio (aspect_ratio args)"
  shows "(\<forall>ps. Gemini_parts w args = Inr ps \<longrightarrow>
            ps = [Text (buildPrompt args cfg)]
                 @ List.map_filter (resolved_part w) (reference_images args)
                 @ (case cfg of
                      None \<Rightarrow> []
                    | Some c \<Rightarrow> [Inline_data ''image/png'' (generateLargeBlankImage w c)]))
       \<and> OpenRouter_content w args =
            [Text_block (buildPrompt args cfg)]
            @ List.map_filter OpenRouter_reference (reference_images args)
            @ (case cfg of
                 None \<Rightarrow> []
               | Some c \<Rightarrow>
                   [Image_url (''data:image/png;base64,'' @ generateLargeBlankImage w c)])"
proof (intro conjI allI impI)
  fix ps assume a: "Gemini_parts w args = Inr ps"
  define acc where "acc = [Text (buildPrompt args cfg)]"
  from a obtain qs where
      q: "(case images args of None \<Rightarrow> Inr acc
           | Some imgs \<Rightarrow> for_each (Gemini_add_image w) imgs acc) = Inr qs"
    and p: "ps = qs @ (case cfg of None \<Rightarrow> []
              | Some c \<Rightarrow> [Inline_data ''image/png'' (generateLargeBlankImage w c)])"
    by (auto simp: Gemini_parts_def Let_def bind_eq_Inr cfg_def acc_def split: option.splits)
  have "qs = acc @ List.map_filter (resolved_part w) (reference_images args)"
  proof (cases "images args")
    case None
    with q show ?thesis by (simp add: reference_images_def List.map_filter_simps)
  next
    case (Some imgs)
    with q have "for_each (Gemini_add_image w) imgs acc = Inr qs" by simp
    from Gemini_loop [OF this] Some show ?thesis by (simp add: reference_images_def)
  qed
  with p show "ps = [Text (buildPrompt args cfg)]
                 @ List.map_filter (resolved_part w) (reference_images args)
                 @ (case cfg of
                      None \<Rightarrow> []
                    | Some c \<Rightarrow> [Inline_data ''image/png'' (generateLargeBlankImage w c)])"
    by (simp add: acc_def)
next
  show "OpenRouter_content w args =
            [Text_block (buildPrompt args cfg)]
            @ List.map_filter OpenRouter_reference (reference_images args)
            @ (case cfg of
                 None \<Rightarrow> []
               | Some c \<Rightarrow>
                   [Image_url (''data:image/png;base64,'' @ generateLargeBlankImage w c)])"
    by (simp add: OpenRouter_content_def Let_def OpenRouter_loop reference_images_def
          List.map_filter_simps cfg_def split: option.splits)
qed

text \<open>
  Claim C3. In the payload of either adapter the first element is the one text part, holding
  the composed prompt; then come the elements of the reference images, in the order of the
  input list, an image without a source that the adapter uses contributing nothing; and when
  the aspect ratio resolved, the canvas image is the last element. Backend A builds a payload
  only when every source resolves.
\<close>

theorem payload_order:
  fixes w :: world and args :: ImageGenerationArgs
  defines "cfg \<equiv> parseAspectRatio (aspect_ratio args)"
  shows "(\<forall>ps. Gemini_parts w args = Inr ps \<longrightarrow>
            ps = [Text (buildPrompt args cfg)]
                 @ List.map_filter (resolved_part w) (reference_images args)
                 @ (case cfg of
                      None \<Rightarrow> []
                    | Some c \<Rightarrow> [Inline_data ''image/png'' (generateLargeBlankImage w c)]))
       \<and> OpenRouter_content w args =
            [Text_block (buildPrompt args cfg)]
            @ List.map_filter OpenRouter_reference (reference_images args)
            @ (case cfg of
                 None \<Rightarrow> []
               | Some c \<Rightarrow>
                   [Image_url (''data:image/png;base64,'' @ generateLargeBlankImage w c)])"
  unfolding cfg_def by (rule payload_shapes)

lemma landscape_cfg: "parseAspectRatio (Some ''landscape'')
    = Some (Descriptor \<lparr>width = Num 1024, height = Num 576, name = ''landscape''\<rparr>)"
  by (rule parseAspectRatio_named)
    (simp add: trim_def toLowerCase_def lower_char_def is_space_def char_code_def Let_def
       ASPECT_RATIOS_def)

lemma example_prompt:
  "buildPrompt example_args (parseAspectRatio (Some ''landscape''))
     = ''a red circle Generate the image to fill the entire landscape orientation (16:9 aspect ratio) canvas provided by the blank image.''"
  by (simp add: landscape_cfg buildPrompt_def example_args_def descriptions_def or_else_def
        truthy_def Let_def)

lemma example_Gemini_parts:
  "Gemini_parts example_world example_args =
     Inr [Text ''a red circle Generate the image to fill the entire landscape orientation (16:9 aspect ratio) canvas provided by the blank image.'',
          Inline_data ''image/jpeg'' ''RklMRQ=='',
          Inline_data ''image/png'' ''QUJD'',
          Inline_data ''image/png'' ''UE5H'']"
proof -
  have "aspect_ratio example_args = Some ''landscape''" by (simp add: example_args_def)
  then have "Gemini_parts example_world example_args =
      bind (for_each (Gemini_add_image example_world) [path_image, inline_image]
              [Text (buildPrompt example_args (parseAspectRatio (Some ''landscape'')))])
        (\<lambda>parts. Inr (parts @ [Inline_data ''image/png''
            (generateLargeBlankImage example_world
               (Descriptor \<lparr>width = Num 1024, height = Num 576, name = ''landscape''\<rparr>))]))"
    by (simp add: Gemini_parts_def Let_def landscape_cfg) (simp add: example_args_def)
  then show ?thesis
    by (simp add: example_prompt Gemini_add_image_def generateLargeBlankImage_def
          example_world_def path_image_def inline_image_def truthy_def or_else_def
          strip_data_uri_def startsWith_def)
qed

theorem payload_order_witness:
  "Gemini_parts example_world example_args =
     Inr [Text (buildPrompt example_args (parseAspectRatio (Some ''landscape''))),
          Inline_data ''image/jpeg'' ''RklMRQ=='',
          Inline_data ''image/png'' ''QUJD'',
          Inline_data ''image/png'' ''UE5H'']
   \<and> [Text (buildPrompt example_args (parseAspectRatio (Some ''landscape''))),
        Inline_data ''image/jpeg'' ''RklMRQ=='',
        Inline_data ''image/png'' ''QUJD'',
        Inline_data ''image/png'' ''UE5H'']
     = [Text (buildPrompt example_args (parseAspectRatio (Some ''landscape'')))]
       @ List.map_filter (resolved_part example_world) [path_image, inline_image]
       @ [Inline_data ''image/png''
            (generateLargeBlankImage example_world
               (Descriptor \<lparr>width = Num 1024, height = Num 576, name = ''landscape''\<rparr>))]
   \<and> OpenRouter_content example_world example_args
     = [Text_block (buildPrompt example_args (parseAspectRatio (Some ''landscape''))),
        Image_url ''data:image/png;base64,QUJD'',
        Image_url ''data:image/png;base64,UE5H'']"
proof (intro conjI)
  have a: "aspect_ratio example_args = Some ''landscape''"
    and i: "reference_images example_args = [path_image, inline_image]"
    by (simp_all add: example_args_def reference_images_def)
  show g: "Gemini_parts example_world example_args =
     Inr [Text (buildPrompt example_args (parseAspectRatio (Some ''landscape''))),
          Inline_data ''image/jpeg'' ''RklMRQ=='',
          Inline_data ''image/png'' ''QUJD'',
          Inline_data ''image/png'' ''UE5H'']"
    by (simp only: example_Gemini_parts example_prompt)
  from payload_order [where w = example_world and args = example_args, THEN conjunct1, rule_format, OF g]
  show "[Text (buildPrompt example_args (parseAspectRatio (Some ''landscape''))),
        Inline_data ''image/jpeg'' ''RklMRQ=='',
        Inline_data ''image/png'' ''QUJD'',
        Inline_data ''image/png'' ''UE5H'']
     = [Text (buildPrompt example_args (parseAspectRatio (Some ''landscape'')))]
       @ List.map_filter (resolved_part example_world) [path_image, inline_image]
       @ [Inline_data ''image/png''
            (generateLargeBlankImage example_world
               (Descriptor \<lparr>width = Num 1024, height = Num 576, name = ''landscape''\<rparr>))]"
    by (simp only: a i landscape_cfg option.case)
  have "OpenRouter_content example_world example_args
     = [Text_block (buildPrompt example_args (parseAspectRatio (Some ''landscape'')))]
       @ List.map_filter OpenRouter_reference [path_image, inline_image]
       @ [Image_url (''data:image/png;base64,'' @ generateLargeBlankImage example_world
            (Descriptor \<lparr>width = Num 1024, height = Num 576, name = ''landscape''\<rparr>))]"
    using payload_order [where w = example_world and args = example_args, THEN conjunct2]
    by (simp only: a i landscape_cfg option.case)
  then show "OpenRouter_content example_world example_args
     = [Text_block (buildPrompt example_args (parseAspectRatio (Some ''landscape''))),
        Image_url ''data:image/png;base64,QUJD'',
        Image_url ''data:image/png;base64,UE5H'']"
    by (simp add: List.map_filter_simps OpenRouter_reference_def path_image_def
          inline_image_def truthy_def or_else_def strip_data_uri_def startsWith_def
          generateLargeBlankImage_def example_world_def)
qed

text \<open>
  Claim C7, as the code has it. When a reference image has more than one source field set,
  Backend A uses the inline base64 data first, then the local path, then the remote URL;
  an image with none of them adds no part.
\<close>

theorem Gemini_source_priority:
  "(truthy (base64 im) \<longrightarrow>
      Gemini_add_image w parts im =
        Inr (parts @ [Inline_data (or_else (mimeType im) ''image/png'')
                        (strip_data_uri (the (base64 im)))]))
   \<and> (\<not> truthy (base64 im) \<and> truthy (path im) \<longrightarrow>
      Gemini_add_image w parts im =
        (case readImageFileAsBase64 w (the (path im)) of
           Inl e \<Rightarrow> Inl e
         | Inr (b, m) \<Rightarrow> Inr (parts @ [Inline_data (or_else (mimeType im) m) b])))
   \<and> (\<not> truthy (base64 im) \<and> \<not> truthy (path im) \<and> truthy (url im) \<longrightarrow>
      Gemini_add_image w parts im =
        (case fetchImageAsBase64 w (the (url im)) of
           Inl e \<Rightarrow> Inl e
         | Inr (b, m) \<Rightarrow> Inr (parts @ [Inline_data m b])))
   \<and> (\<not> truthy (base64 im) \<and> \<not> truthy (path im) \<and> \<not> truthy (url im) \<longrightarrow>
      Gemini_add_image w parts im = Inr parts)"
  by (auto simp: Gemini_add_image_def bind_def split: sum.splits prod.splits)

theorem Gemini_source_priority_witness:
  "Gemini_add_image example_world [] inline_image = Inr [Inline_data ''image/png'' ''QUJD'']
   \<and> Gemini_add_image example_world [] path_image = Inr [Inline_data ''image/jpeg'' ''RklMRQ=='']"
proof (intro conjI)
  have "truthy (base64 inline_image)" by (simp add: inline_image_def truthy_def)
  from Gemini_source_priority [where im = inline_image and w = example_world and parts = "[]", THEN conjunct1, rule_format, OF this]
  show "Gemini_add_image example_world [] inline_image = Inr [Inline_data ''image/png'' ''QUJD'']"
    by (simp add: inline_image_def or_else_def strip_data_uri_def startsWith_def)
  have "\<not> truthy (base64 path_image) \<and> truthy (path path_image)"
    by (simp add: path_image_def truthy_def)
  from Gemini_source_priority [where im = path_image and w = example_world and parts = "[]", THEN conjunct2, THEN conjunct1,
      rule_format, OF this]
  show "Gemini_add_image example_world [] path_image = Inr [Inline_data ''image/jpeg'' ''RklMRQ=='']"
    by (simp add: path_image_def example_world_def or_else_def)
qed

text \<open>
  An image with a readable local path, a URL and inline data: by the claimed priority the
  part would hold the file's data; the adapter sends the inline data, and does not read
  the file.
\<close>

theorem Gemini_source_priority_counterexample:
  "path inline_image = Some ''ref.png''
   \<and> readImageFileAsBase64 example_world ''ref.png'' = Inr (''RklMRQ=='', ''image/jpeg'')
   \<and> Gemini_add_image example_world [] inline_image = Inr [Inline_data ''image/png'' ''QUJD'']"
  by (simp add: Gemini_add_image_def inline_image_def example_world_def truthy_def or_else_def
        strip_data_uri_def startsWith_def)

text \<open>
  Claim C10. A reference image whose only source is a local path adds no content block to
  the request of Backend B, while Backend A reads the file and, when that succeeds, adds one
  inline part with its data. So a request with one such image, when Backend A can build its
  payload, has one element more for Backend A than for Backend B.
\<close>

theorem path_only_reference:
  "(truthy (path im) \<and> \<not> truthy (base64 im) \<and> \<not> truthy (url im) \<longrightarrow>
      OpenRouter_add_image content im = content
      \<and> Gemini_add_image w parts im =
          (case readImageFileAsBase64 w (the (path im)) of
             Inl e \<Rightarrow> Inl e
           | Inr (b, m) \<Rightarrow> Inr (parts @ [Inline_data (or_else (mimeType im) m) b])))
   \<and> (\<forall>ps. truthy (path im) \<and> \<not> truthy (base64 im) \<and> \<not> truthy (url im)
         \<and> images args = Some [im] \<and> Gemini_parts w args = Inr ps \<longrightarrow>
         length ps = length (OpenRouter_content w args) + 1)"
proof (intro conjI allI impI)
  assume "truthy (path im) \<and> \<not> truthy (base64 im) \<and> \<not> truthy (url im)"
  then show "OpenRouter_add_image content im = content"
    by (simp add: OpenRouter_add_image_def)
next
  assume "truthy (path im) \<and> \<not> truthy (base64 im) \<and> \<not> truthy (url im)"
  then show "Gemini_add_image w parts im =
          (case readImageFileAsBase64 w (the (path im)) of
             Inl e \<Rightarrow> Inl e
           | Inr (b, m) \<Rightarrow> Inr (parts @ [Inline_data (or_else (mimeType im) m) b]))"
    by (auto simp: Gemini_add_image_def bind_def split: sum.splits prod.splits)
next
  fix ps
  assume h: "truthy (path im) \<and> \<not> truthy (base64 im) \<and> \<not> truthy (url im)
         \<and> images args = Some [im] \<and> Gemini_parts w args = Inr ps"
  then have r: "reference_images args = [im]" by (simp add: reference_images_def)
  from h have o: "OpenRouter_reference im = None" by (simp add: OpenRouter_reference_def)
  from h have g: "Gemini_parts w args = Inr ps" by blast
  have "\<exists>p. Gemini_reference w im = Some (Inr p)"
  proof -
    from h have "Gemini_reference w im \<noteq> None" by (simp add: Gemini_reference_def)
    moreover have "\<forall>e. Gemini_reference w im \<noteq> Some (Inl e)"
    proof -
      define acc where "acc = [Text (buildPrompt args (parseAspectRatio (aspect_ratio args)))]"
      from g h obtain qs where "for_each (Gemini_add_image w) [im] acc = Inr qs"
        by (auto simp: Gemini_parts_def Let_def bind_eq_Inr acc_def)
      from Gemini_loop [OF this] show ?thesis by simp
    qed
    ultimately show ?thesis by (cases "Gemini_reference w im") (auto intro: sum.exhaust)
  qed
  then obtain p where p: "resolved_part w im = Some p" by (auto simp: resolved_part_def)
  show "length ps = length (OpenRouter_content w args) + 1"
    using payload_shapes [where w = w and args = args, THEN conjunct1, rule_format, OF g]
      payload_shapes [where w = w and args = args, THEN conjunct2]
    by (simp add: r o p List.map_filter_simps split: option.splits)
qed

theorem path_only_reference_witness:
  "OpenRouter_add_image [Text_block ''p''] path_image = [Text_block ''p'']
   \<and> Gemini_add_image example_world [Text ''p''] path_image
       = Inr [Text ''p'', Inline_data ''image/jpeg'' ''RklMRQ=='']"
proof -
  have "truthy (path path_image) \<and> \<not> truthy (base64 path_image) \<and> \<not> truthy (url path_image)"
    by (simp add: path_image_def truthy_def)
  from path_only_reference [where im = path_image and content = "[Text_block ''p'']"
        and w = example_world and parts = "[Text ''p'']",
      THEN conjunct1, rule_format, OF this]
  show ?thesis by (simp add: path_image_def example_world_def or_else_def)
qed

subsection \<open>Failures and empty results\<close>

lemma get_prop_defined:
  "get_prop v k = Inr x \<Longrightarrow> \<exists>y. get_prop v k' = Inr y"
proof (cases v)
  case None
  then show "get_prop v k = Inr x \<Longrightarrow> ?thesis" by simp
next
  case (Some j)
  then show "get_prop v k = Inr x \<Longrightarrow> ?thesis" by (cases j) simp_all
qed

lemma get_prop_truthy:
  "js_truthy u \<Longrightarrow> \<exists>y. get_prop u k = Inr y"
proof (cases u)
  case None
  then show "js_truthy u \<Longrightarrow> ?thesis" by simp
next
  case (Some j)
  then show "js_truthy u \<Longrightarrow> ?thesis" by (cases j) simp_all
qed

lemma Gemini_usage_defined:
  assumes "get_prop (Some d) k = Inr x"
  shows "\<exists>u. Gemini_usage d = Inr u"
proof -
  obtain m where m: "get_prop (Some d) ''usageMetadata'' = Inr m"
    using get_prop_defined [OF assms] by blast
  show ?thesis
  proof (cases "js_truthy m")
    case True
    obtain a b c where "get_prop m ''promptTokenCount'' = Inr a"
      "get_prop m ''candidatesTokenCount'' = Inr b" "get_prop m ''totalTokenCount'' = Inr c"
      using get_prop_truthy [OF True] by metis
    with m True show ?thesis by (simp add: Gemini_usage_def)
  next
    case False
    with m show ?thesis by (simp add: Gemini_usage_def)
  qed
qed

lemma OpenRouter_usage_defined:
  assumes "get_prop (Some d) k = Inr x"
  shows "\<exists>u. OpenRouter_usage d = Inr u"
proof -
  obtain m where m: "get_prop (Some d) ''usage'' = Inr m"
    using get_prop_defined [OF assms] by blast
  show ?thesis
  proof (cases "js_truthy m")
    case True
    obtain a b c where "get_prop m ''prompt_tokens'' = Inr a"
      "get_prop m ''completion_tokens'' = Inr b" "get_prop m ''total_tokens'' = Inr c"
      using get_prop_truthy [OF True] by metis
    with m True show ?thesis by (simp add: OpenRouter_usage_def)
  next
    case False
    with m show ?thesis by (simp add: OpenRouter_usage_def)
  qed
qed

lemma Gemini_extract_defined:
  "Gemini_extract_images w d = Inr imgs \<Longrightarrow> \<exists>x. get_prop (Some d) ''candidates'' = Inr x"
  by (auto simp: Gemini_extract_images_def bind_eq_Inr)

lemma OpenRouter_extract_defined:
  "OpenRouter_extract_images w msg = Inr imgs \<Longrightarrow> \<exists>x. get_prop msg ''images'' = Inr x"
  by (auto simp: OpenRouter_extract_images_def bind_eq_Inr)

lemma Gemini_generateImage_total:
  assumes "truthy (apiKey this)"
  shows "\<exists>r. Gemini_generateImage w this args = Inr r
           \<and> (\<forall>e. Gemini_try w (the (apiKey this)) args = Inl e \<longrightarrow>
                  \<not> success r \<and> result_images r = None \<and> error r = Some (error_message e))"
  using assms by (cases "Gemini_try w (the (apiKey this)) args") (simp_all add: Gemini_generateImage_def)

lemma OpenRouter_generateImage_total:
  assumes "truthy (apiKey this)"
  shows "\<exists>r. OpenRouter_generateImage w this args = Inr r
           \<and> (\<forall>e. OpenRouter_try w (the (apiKey this)) args = Inl e \<longrightarrow>
                  \<not> success r \<and> result_images r = None \<and> error r = Some (error_message e))"
  using assms
  by (cases "OpenRouter_try w (the (apiKey this)) args") (simp_all add: OpenRouter_generateImage_def)

text \<open>
  Claim C4, as the code has it. When the adapter's credential is configured,
  \<open>generateImage\<close> returns a result and throws nothing: every exception of its \<open>try\<close> block
  becomes a result with \<open>success = false\<close>, no images, and the exception's message in
  \<open>error\<close>. Such exceptions are a reference image that does not resolve (Backend A), a
  failure of the POST, a response outside 200..299 (the message holds the status and the
  body), a body that does not parse, and an exception while the parsed body is read.
\<close>

theorem generateImage_catches:
  fixes w :: world and this :: provider_instance and args :: ImageGenerationArgs
  defines "key \<equiv> the (apiKey this)"
  shows "(truthy (apiKey this) \<longrightarrow>
            (\<exists>r. Gemini_generateImage w this args = Inr r
                \<and> (\<forall>e. Gemini_try w key args = Inl e \<longrightarrow>
                      \<not> success r \<and> result_images r = None
                      \<and> error r = Some (error_message e)))
          \<and> (\<exists>r. OpenRouter_generateImage w this args = Inr r
                \<and> (\<forall>e. OpenRouter_try w key args = Inl e \<longrightarrow>
                      \<not> success r \<and> result_images r = None
                      \<and> error r = Some (error_message e))))
       \<and> (\<forall>e. Gemini_parts w args = Inl e \<longrightarrow> Gemini_try w key args = Inl e)
       \<and> (\<forall>ps e. Gemini_parts w args = Inr ps \<and> fetch_post w (Gemini_request key ps) = Inl e
             \<longrightarrow> Gemini_try w key args = Inl e)
       \<and> (\<forall>ps resp t. Gemini_parts w args = Inr ps
             \<and> fetch_post w (Gemini_request key ps) = Inr resp
             \<and> \<not> ok resp \<and> body_text resp = Inr t
             \<longrightarrow> Gemini_try w key args =
                   Inl (Error (''Gemini API error: '' @ show_int (int (status resp))
                                 @ '' - '' @ t)))
       \<and> (\<forall>ps resp e. Gemini_parts w args = Inr ps
             \<and> fetch_post w (Gemini_request key ps) = Inr resp
             \<and> ok resp \<and> body_json resp = Inl e
             \<longrightarrow> Gemini_try w key args = Inl e)
       \<and> (\<forall>ps resp d e. Gemini_parts w args = Inr ps
             \<and> fetch_post w (Gemini_request key ps) = Inr resp
             \<and> ok resp \<and> body_json resp = Inr d \<and> Gemini_extract_images w d = Inl e
             \<longrightarrow> Gemini_try w key args = Inl e)
       \<and> (\<forall>e. fetch_post w (OpenRouter_request key (OpenRouter_content w args)) = Inl e
             \<longrightarrow> OpenRouter_try w key args = Inl e)
       \<and> (\<forall>resp t. fetch_post w (OpenRouter_request key (OpenRouter_content w args)) = Inr resp
             \<and> \<not> ok resp \<and> body_text resp = Inr t
             \<longrightarrow> OpenRouter_try w key args =
                   Inl (Error (''OpenRouter API error: '' @ show_int (int (status resp))
                                 @ '' - '' @ t)))
       \<and> (\<forall>resp e. fetch_post w (OpenRouter_request key (OpenRouter_content w args)) = Inr resp
             \<and> ok resp \<and> body_json resp = Inl e
             \<longrightarrow> OpenRouter_try w key args = Inl e)
       \<and> (\<forall>resp d e. fetch_post w (OpenRouter_request key (OpenRouter_content w args)) = Inr resp
             \<and> ok resp \<and> body_json resp = Inr d
             \<and> bind (get_prop (Some d) ''choices'') first_element = Inl e
             \<longrightarrow> OpenRouter_try w key args = Inl e)"
proof (intro conjI allI impI)
  assume "truthy (apiKey this)"
  then show "\<exists>r. Gemini_generateImage w this args = Inr r
                \<and> (\<forall>e. Gemini_try w key args = Inl e \<longrightarrow>
                      \<not> success r \<and> result_images r = None
                      \<and> error r = Some (error_message e))"
    unfolding key_def by (rule Gemini_generateImage_total)
next
  assume "truthy (apiKey this)"
  then show "\<exists>r. OpenRouter_generateImage w this args = Inr r
                \<and> (\<forall>e. OpenRouter_try w key args = Inl e \<longrightarrow>
                      \<not> success r \<and> result_images r = None
                      \<and> error r = Some (error_message e))"
    unfolding key_def by (rule OpenRouter_generateImage_total)
qed (auto simp: Gemini_try_def OpenRouter_try_def bind_def split: sum.splits)

lemma text_args_payload:
  "Gemini_parts w text_args = Inr [Text ''a red circle'']"
  "OpenRouter_content w text_args = [Text_block ''a red circle'']"
  by (simp_all add: Gemini_parts_def OpenRouter_content_def text_args_def parseAspectRatio_def
        buildPrompt_def truthy_def Let_def)

theorem generateImage_catches_witness:
  "Gemini_generateImage offline_world configured text_args =
     Inr \<lparr>success = False, provider = ''Gemini Direct'',
          model = ''gemini-2.5-flash-image-preview'', result_prompt = ''a red circle'',
          result_images = None, message = None, usage = None, error = Some ''fetch failed''\<rparr>
   \<and> OpenRouter_generateImage offline_world configured text_args =
     Inr \<lparr>success = False, provider = ''OpenRouter'',
          model = ''google/gemini-2.5-flash-image-preview'', result_prompt = ''a red circle'',
          result_images = None, message = None, usage = None, error = Some ''fetch failed''\<rparr>"
proof (intro conjI)
  note c = generateImage_catches [where w = offline_world and this = configured and args = text_args]
  have k: "truthy (apiKey configured)" "the (apiKey configured) = ''secret''"
    by (simp_all add: configured_def truthy_def)
  have "Gemini_parts offline_world text_args = Inr [Text ''a red circle'']
      \<and> fetch_post offline_world (Gemini_request (the (apiKey configured)) [Text ''a red circle''])
          = Inl (Error ''fetch failed'')"
    by (simp add: text_args_payload offline_world_def example_world_def)
  from c [THEN conjunct2, THEN conjunct2, THEN conjunct1, rule_format, OF this]
  have "Gemini_try offline_world ''secret'' text_args = Inl (Error ''fetch failed'')"
    by (simp only: k)
  then show "Gemini_generateImage offline_world configured text_args =
     Inr \<lparr>success = False, provider = ''Gemini Direct'',
          model = ''gemini-2.5-flash-image-preview'', result_prompt = ''a red circle'',
          result_images = None, message = None, usage = None, error = Some ''fetch failed''\<rparr>"
    by (simp add: Gemini_generateImage_def k text_args_def)
  have "fetch_post offline_world
          (OpenRouter_request (the (apiKey configured)) (OpenRouter_content offline_world text_args))
        = Inl (Error ''fetch failed'')"
    by (simp add: offline_world_def example_world_def)
  from c [THEN conjunct2, THEN conjunct2, THEN conjunct2, THEN conjunct2, THEN conjunct2,
      THEN conjunct2, THEN conjunct1, rule_format, OF this]
  have "OpenRouter_try offline_world ''secret'' text_args = Inl (Error ''fetch failed'')"
    by (simp only: k)
  then show "OpenRouter_generateImage offline_world configured text_args =
     Inr \<lparr>success = False, provider = ''OpenRouter'',
          model = ''google/gemini-2.5-flash-image-preview'', result_prompt = ''a red circle'',
          result_images = None, message = None, usage = None, error = Some ''fetch failed''\<rparr>"
    by (simp add: OpenRouter_generateImage_def k text_args_def GEMINI_MODEL_def)
qed

text \<open>
  Without its credential each adapter throws before it enters its \<open>try\<close> block, and the
  exception reaches the caller.
\<close>

theorem generateImage_catches_counterexample:
  "Gemini_generateImage example_world unconfigured text_args
     = Inl (Error ''GEMINI_API_KEY environment variable is not set'')
   \<and> OpenRouter_generateImage example_world unconfigured text_args
     = Inl (Error ''OPENROUTER_API_KEY environment variable is not set'')"
  by (simp add: Gemini_generateImage_def OpenRouter_generateImage_def unconfigured_def truthy_def)

text \<open>
  Claim C8, as the code has it. When the response is in 200..299, its body parses, and
  reading the parsed body raises no exception and finds no image, the result has
  \<open>success = true\<close>, an empty image list and no error. For Backend A every body that is a JSON
  object without a \<open>candidates\<close> array is read so. For Backend B the body must hold a first
  choice with a message; a message object whose \<open>images\<close> and \<open>content\<close> are absent or falsy is
  read so.
\<close>

theorem no_image_is_success:
  fixes w :: world and this :: provider_instance and args :: ImageGenerationArgs
  defines "key \<equiv> the (apiKey this)"
  shows "(\<forall>ps resp d. truthy (apiKey this) \<and> Gemini_parts w args = Inr ps
             \<and> fetch_post w (Gemini_request key ps) = Inr resp
             \<and> ok resp \<and> body_json resp = Inr d \<and> Gemini_extract_images w d = Inr []
             \<longrightarrow> (\<exists>r. Gemini_generateImage w this args = Inr r
                     \<and> success r \<and> result_images r = Some [] \<and> error r = None))
       \<and> (\<forall>resp d choices choice msg. truthy (apiKey this)
             \<and> fetch_post w (OpenRouter_request key (OpenRouter_content w args)) = Inr resp
             \<and> ok resp \<and> body_json resp = Inr d
             \<and> get_prop (Some d) ''choices'' = Inr choices
             \<and> first_element choices = Inr choice
             \<and> get_prop choice ''message'' = Inr msg
             \<and> OpenRouter_extract_images w msg = Inr []
             \<longrightarrow> (\<exists>r. OpenRouter_generateImage w this args = Inr r
                     \<and> success r \<and> result_images r = Some [] \<and> error r = None))
       \<and> (\<forall>kvs. (\<forall>cs. map_of (rev kvs) ''candidates'' \<noteq> Some (JArray cs))
             \<longrightarrow> Gemini_extract_images w (JObject kvs) = Inr [])
       \<and> (\<forall>kvs. \<not> js_truthy (map_of (rev kvs) ''images'')
             \<and> \<not> js_truthy (map_of (rev kvs) ''content'')
             \<longrightarrow> OpenRouter_extract_images w (Some (JObject kvs)) = Inr [])"
proof (intro conjI allI impI)
  fix ps resp d
  assume h: "truthy (apiKey this) \<and> Gemini_parts w args = Inr ps
             \<and> fetch_post w (Gemini_request key ps) = Inr resp
             \<and> ok resp \<and> body_json resp = Inr d \<and> Gemini_extract_images w d = Inr []"
  then obtain u where u: "Gemini_usage d = Inr u"
    using Gemini_extract_defined Gemini_usage_defined by blast
  from h u have "\<exists>r. Gemini_try w key args = Inr r
      \<and> success r \<and> result_images r = Some [] \<and> error r = None"
    by (simp add: Gemini_try_def)
  with h show "\<exists>r. Gemini_generateImage w this args = Inr r
      \<and> success r \<and> result_images r = Some [] \<and> error r = None"
    by (auto simp: Gemini_generateImage_def key_def)
next
  fix resp d choices choice msg
  assume h: "truthy (apiKey this)
             \<and> fetch_post w (OpenRouter_request key (OpenRouter_content w args)) = Inr resp
             \<and> ok resp \<and> body_json resp = Inr d
             \<and> get_prop (Some d) ''choices'' = Inr choices
             \<and> first_element choices = Inr choice
             \<and> get_prop choice ''message'' = Inr msg
             \<and> OpenRouter_extract_images w msg = Inr []"
  then obtain u where u: "OpenRouter_usage d = Inr u"
    using OpenRouter_usage_defined by blast
  from h obtain c where c: "get_prop msg ''content'' = Inr c"
    using OpenRouter_extract_defined get_prop_defined by blast
  from h u c have "\<exists>r. OpenRouter_try w key args = Inr r
      \<and> success r \<and> result_images r = Some [] \<and> error r = None"
    by (simp add: OpenRouter_try_def)
  with h show "\<exists>r. OpenRouter_generateImage w this args = Inr r
      \<and> success r \<and> result_images r = Some [] \<and> error r = None"
    by (auto simp: OpenRouter_generateImage_def key_def)
next
  fix kvs
  assume "\<forall>cs. map_of (rev kvs) ''candidates'' \<noteq> Some (JArray cs)"
  then show "Gemini_extract_images w (JObject kvs) = Inr []"
    by (auto simp: Gemini_extract_images_def split: option.splits json.splits)
next
  fix kvs
  assume "\<not> js_truthy (map_of (rev kvs) ''images'')
             \<and> \<not> js_truthy (map_of (rev kvs) ''content'')"
  then show "OpenRouter_extract_images w (Some (JObject kvs)) = Inr []"
    by (simp add: OpenRouter_extract_images_def)
qed

theorem no_image_is_success_witness:
  "(\<exists>r. Gemini_generateImage example_world configured text_args = Inr r
        \<and> success r \<and> result_images r = Some [] \<and> error r = None)
   \<and> (\<exists>r. OpenRouter_generateImage empty_message_world configured text_args = Inr r
        \<and> success r \<and> result_images r = Some [] \<and> error r = None)"
proof (intro conjI)
  have k: "truthy (apiKey configured)" by (simp add: configured_def truthy_def)
  have e: "Gemini_extract_images example_world (JObject []) = Inr []"
    using no_image_is_success [where w = example_world and this = configured and args = text_args,
        THEN conjunct2, THEN conjunct2, THEN conjunct1, rule_format, of "[]"]
    by simp
  have "truthy (apiKey configured) \<and> Gemini_parts example_world text_args = Inr [Text ''a red circle'']
      \<and> fetch_post example_world (Gemini_request (the (apiKey configured)) [Text ''a red circle''])
          = Inr \<lparr>status = 200, body_text = Inr ''{}'', body_json = Inr (JObject [])\<rparr>
      \<and> ok \<lparr>status = 200, body_text = Inr ''{}'', body_json = Inr (JObject [])\<rparr>
      \<and> body_json \<lparr>status = 200, body_text = Inr ''{}'', body_json = Inr (JObject [])\<rparr>
          = Inr (JObject [])
      \<and> Gemini_extract_images example_world (JObject []) = Inr []"
  proof -
    have "fetch_post example_world (Gemini_request (the (apiKey configured)) [Text ''a red circle''])
          = Inr \<lparr>status = 200, body_text = Inr ''{}'', body_json = Inr (JObject [])\<rparr>"
      by (simp add: example_world_def)
    then show ?thesis using k e by (simp add: text_args_payload ok_def)
  qed
  from no_image_is_success [where w = example_world and this = configured and args = text_args,
      THEN conjunct1, rule_format, OF this]
  show "\<exists>r. Gemini_generateImage example_world configured text_args = Inr r
        \<and> success r \<and> result_images r = Some [] \<and> error r = None" .
next
  define resp where "resp = \<lparr>status = 200, body_text = Inr ''a choice with an empty message'',
      body_json = Inr (JObject [(''choices'', JArray [JObject [(''message'', JObject [])]])])\<rparr>"
  have k: "truthy (apiKey configured)" by (simp add: configured_def truthy_def)
  have e: "OpenRouter_extract_images empty_message_world (Some (JObject [])) = Inr []"
    using no_image_is_success [where w = empty_message_world and this = configured and args = text_args,
        THEN conjunct2, THEN conjunct2, THEN conjunct2, rule_format, of "[]"]
    by simp
  have "truthy (apiKey configured)
      \<and> fetch_post empty_message_world
           (OpenRouter_request (the (apiKey configured))
              (OpenRouter_content empty_message_world text_args)) = Inr resp
      \<and> ok resp
      \<and> body_json resp = Inr (JObject [(''choices'', JArray [JObject [(''message'', JObject [])]])])
      \<and> get_prop (Some (JObject [(''choices'', JArray [JObject [(''message'', JObject [])]])]))
           ''choices'' = Inr (Some (JArray [JObject [(''message'', JObject [])]]))
      \<and> first_element (Some (JArray [JObject [(''message'', JObject [])]]))
           = Inr (Some (JObject [(''message'', JObject [])]))
      \<and> get_prop (Some (JObject [(''message'', JObject [])])) ''message''
           = Inr (Some (JObject []))
      \<and> OpenRouter_extract_images empty_message_world (Some (JObject [])) = Inr []"
  proof -
    have "fetch_post empty_message_world
           (OpenRouter_request (the (apiKey configured))
              (OpenRouter_content empty_message_world text_args)) = Inr resp"
      by (simp add: resp_def empty_message_world_def example_world_def)
    then show ?thesis using k e by (simp add: resp_def ok_def)
  qed
  from no_image_is_success [where w = empty_message_world and this = configured and args = text_args,
      THEN conjunct2, THEN conjunct1, rule_format, OF this]
  show "\<exists>r. OpenRouter_generateImage empty_message_world configured text_args = Inr r
        \<and> success r \<and> result_images r = Some [] \<and> error r = None" .
qed

text \<open>
  A response with status 200 whose body is the JSON object \<open>{}\<close>: no image can be extracted,
  and Backend B returns a failure, because \<open>data.choices[0]\<close> throws.
\<close>

theorem no_image_is_success_counterexample:
  "fetch_post example_world (OpenRouter_request ''secret'' [Text_block ''a red circle''])
     = Inr \<lparr>status = 200, body_text = Inr ''{}'', body_json = Inr (JObject [])\<rparr>
   \<and> OpenRouter_generateImage example_world configured text_args =
     Inr \<lparr>success = False, provider = ''OpenRouter'',
          model = ''google/gemini-2.5-flash-image-preview'', result_prompt = ''a red circle'',
          result_images = None, message = None, usage = None,
          error = Some (''Cannot read properties of undefined (reading '' @ [CHR 0x27] @ ''0''
                          @ [CHR 0x27] @ '')'')\<rparr>"
  by (simp add: OpenRouter_generateImage_def OpenRouter_try_def configured_def truthy_def
        text_args_payload example_world_def ok_def GEMINI_MODEL_def)
    (simp add: text_args_def)

subsection \<open>Canvas Image Synthesizer\<close>






subsection \<open>File Persister\<close>

lemma save_image_written_file:
  "save_image w n b st ix =
     (case written_file w n b ix of
        None \<Rightarrow> st
      | Some (fp, buf) \<Rightarrow>
          \<lparr>savedFiles = savedFiles st @ [fp], written = written st @ [(fp, buf)]\<rparr>)"
  by (auto simp: save_image_def written_file_def Let_def split: prod.splits sum.splits option.splits)

lemma foldl_save_image:
  "savedFiles (foldl (save_image w n b) st ixs)
     = savedFiles st @ map fst (List.map_filter (written_file w n b) ixs)
   \<and> written (foldl (save_image w n b) st ixs)
     = written st @ List.map_filter (written_file w n b) ixs"
proof (induction ixs arbitrary: st)
  case Nil
  show ?case by (simp add: List.map_filter_simps)
next
  case (Cons ix ixs)
  show ?case
  proof (cases "written_file w n b ix")
    case None
    then have "save_image w n b st ix = st" by (simp add: save_image_written_file)
    with Cons [of st] None show ?thesis by (simp add: List.map_filter_simps)
  next
    case (Some f)
    obtain fp buf where f: "f = (fp, buf)" by (cases f)
    define st' where "st' = \<lparr>savedFiles = savedFiles st @ [fp], written = written st @ [(fp, buf)]\<rparr>"
    have "save_image w n b st ix = st'"
      using Some f by (simp add: save_image_written_file st'_def)
    with Cons [of st'] Some f show ?thesis by (simp add: List.map_filter_simps st'_def)
  qed
qed

lemma underscore_safe: "is_safe_char CHR ''_''"
  by (simp add: is_safe_char_def)

lemma replace_unsafe_runs_safe: "c \<in> set (replace_unsafe_runs s) \<Longrightarrow> is_safe_char c"
proof (induction s arbitrary: c rule: replace_unsafe_runs.induct)
  case 1
  then show ?case by simp
next
  case (2 x xs)
  show ?case
  proof (cases "is_safe_char x")
    case True
    with "2.prems" have "c = x \<or> c \<in> set (replace_unsafe_runs xs)" by simp
    with True "2.IH"(1) show ?thesis by blast
  next
    case False
    with "2.prems" have "c = CHR ''_''
        \<or> c \<in> set (replace_unsafe_runs (dropWhile (\<lambda>x. \<not> is_safe_char x) xs))"
      by simp
    with False "2.IH"(2) underscore_safe show ?thesis by blast
  qed
qed

lemma sanitizeFilename_safe:
  "length (sanitizeFilename s) \<le> 64" "c \<in> set (sanitizeFilename s) \<Longrightarrow> is_safe_char c"
  by (auto simp: sanitizeFilename_def dest: in_set_takeD replace_unsafe_runs_safe)

lemma written_file_path:
  assumes "written_file w n b (i, im) = Some (fp, buf)"
  shows "\<exists>ext. fp = path_join w outputDir (image_filename w n b i ext)"
  using assms
  by (auto simp: written_file_def Let_def split: sum.splits option.splits prod.splits if_splits)

text \<open>
  Claim C9. When the output directory can be made, \<open>saveImages\<close> returns a list, whatever
  fails for a single image (no content, a fetch that fails, a write that fails): the
  paths of the files it has written, in the order of the images. The file of the \<open>i\<close>-th
  image (from 0) of \<open>n\<close> is named \<open>base_timestamp_(i+1).ext\<close> when \<open>n > 1\<close> and
  \<open>base_timestamp.ext\<close> otherwise, in the output directory; \<open>base\<close> is the sanitized base
  name, of at most 64 characters, all of them letters, digits, \<open>_\<close> or \<open>-\<close>.
\<close>

theorem saveImages_outcome:
  fixes w :: fs_world and imgs :: "GeneratedImage list" and baseFilename :: string
  defines "n \<equiv> length imgs"
  defines "safeBase \<equiv> sanitizeFilename (if baseFilename = [] then ''generated_image''
                                          else baseFilename)"
  defines "files \<equiv> List.map_filter (written_file w n baseFilename) (zip [0..<n] imgs)"
  shows "(mkdir w outputDir = None \<longrightarrow>
            saveImages w imgs baseFilename = (Inr (map fst files), files))
       \<and> (\<forall>fp buf. (fp, buf) \<in> set files \<longrightarrow>
            (\<exists>i ext. i < n
               \<and> written_file w n baseFilename (i, imgs ! i) = Some (fp, buf)
               \<and> writeFile w i fp buf = None
               \<and> fp = path_join w outputDir
                        (safeBase @ ''_'' @ timestamp_of (now_iso w i)
                         @ (if 1 < n then ''_'' @ show_int (int i + 1) else [])
                         @ ''.'' @ ext)))
       \<and> length safeBase \<le> 64 \<and> (\<forall>c \<in> set safeBase. is_safe_char c)"
proof (intro conjI allI impI ballI)
  assume "mkdir w outputDir = None"
  then show "saveImages w imgs baseFilename = (Inr (map fst files), files)"
    using foldl_save_image [of w n baseFilename "\<lparr>savedFiles = [], written = []\<rparr>" "zip [0..<n] imgs"]
    by (simp add: saveImages_def Let_def files_def n_def)
next
  fix fp buf assume "(fp, buf) \<in> set files"
  then obtain ix where ix: "ix \<in> set (zip [0..<n] imgs)"
      "written_file w n baseFilename ix = Some (fp, buf)"
    by (auto simp: files_def List.map_filter_def)
  obtain i im where p: "ix = (i, im)" by (cases ix)
  from ix(1) p have i: "i < n" "im = imgs ! i"
    by (auto simp: n_def in_set_zip)
  from ix(2) p obtain ext where e: "fp = path_join w outputDir (image_filename w n baseFilename i ext)"
    using written_file_path by blast
  from ix(2) p have wr: "writeFile w i fp buf = None"
    by (auto simp: written_file_def Let_def split: sum.splits option.splits prod.splits if_splits)
  have F: "image_filename w n baseFilename i ext =
      safeBase @ ''_'' @ timestamp_of (now_iso w i)
        @ (if 1 < n then ''_'' @ show_int (int i + 1) else []) @ ''.'' @ ext"
    by (simp add: image_filename_def safeBase_def Let_def)
  have W: "written_file w n baseFilename (i, imgs ! i) = Some (fp, buf)"
    using ix(2) p i(2) by simp
  show "\<exists>i ext. i < n
               \<and> written_file w n baseFilename (i, imgs ! i) = Some (fp, buf)
               \<and> writeFile w i fp buf = None
               \<and> fp = path_join w outputDir
                        (safeBase @ ''_'' @ timestamp_of (now_iso w i)
                         @ (if 1 < n then ''_'' @ show_int (int i + 1) else [])
                         @ ''.'' @ ext)"
  proof (intro exI conjI)
    show "i < n" by (rule i(1))
    show "written_file w n baseFilename (i, imgs ! i) = Some (fp, buf)" by (rule W)
    show "writeFile w i fp buf = None" by (rule wr)
    show "fp = path_join w outputDir
                        (safeBase @ ''_'' @ timestamp_of (now_iso w i)
                         @ (if 1 < n then ''_'' @ show_int (int i + 1) else [])
                         @ ''.'' @ ext)"
      unfolding F [symmetric] by (rule e)
  qed
next
  show "length safeBase \<le> 64" unfolding safeBase_def by (rule sanitizeFilename_safe)
next
  fix c assume "c \<in> set safeBase"
  then show "is_safe_char c" unfolding safeBase_def by (rule sanitizeFilename_safe)
qed

lemma example_sanitize: "sanitizeFilename ''my file!'' = ''my_file_''"
  by (simp add: sanitizeFilename_def is_safe_char_def char_code_def)

lemma example_timestamp: "timestamp_of ''2025-01-01T00:00:00.000Z'' = ''2025-01-01T00-00-00-000Z''"
  by (simp add: timestamp_of_def)

lemma example_strip: "strip_data_uri ''data:image/png;base64,QUJD'' = ''QUJD''"
  by (simp add: strip_data_uri_def startsWith_def is_line_terminator_def char_code_def)

theorem saveImages_outcome_witness:
  "saveImages example_fs [remote_result, inline_result] ''my file!''
     = (Inr [''generated_images/my_file__2025-01-01T00-00-00-000Z_2.png''],
        [(''generated_images/my_file__2025-01-01T00-00-00-000Z_2.png'', From_base64 ''QUJD'')])
   \<and> saveImages example_fs [inline_result] ''my file!''
     = (Inr [''generated_images/my_file__2025-01-01T00-00-00-000Z.png''],
        [(''generated_images/my_file__2025-01-01T00-00-00-000Z.png'', From_base64 ''QUJD'')])"
proof (intro conjI)
  have m: "mkdir example_fs outputDir = None" by (simp add: example_fs_def)
  have two: "show_int (int 1 + 1) = ''2''" by (simp add: show_int_def digits.simps [of 2])
  have c0: "image_content example_fs 0 remote_result = Inl (Error ''fetch failed'')"
    by (simp add: image_content_def remote_result_def example_fs_def truthy_def)
  have c1: "image_content example_fs i inline_result = Inr (Some (From_base64 ''QUJD'', ''png''))" for i
    by (simp add: image_content_def inline_result_def truthy_def example_strip Let_def)
  have f2: "List.map_filter (written_file example_fs 2 ''my file!'')
               (zip [0..<2] [remote_result, inline_result])
      = [(''generated_images/my_file__2025-01-01T00-00-00-000Z_2.png'', From_base64 ''QUJD'')]"
  proof -
    have "zip [0..<2] [remote_result, inline_result] = [(0, remote_result), (1, inline_result)]"
      by (simp add: upt_rec)
    moreover have "written_file example_fs 2 ''my file!'' (0, remote_result) = None"
      by (simp add: written_file_def c0)
    moreover have "written_file example_fs 2 ''my file!'' (1, inline_result)
        = Some (''generated_images/my_file__2025-01-01T00-00-00-000Z_2.png'', From_base64 ''QUJD'')"
      using two
      by (simp add: written_file_def c1 image_filename_def example_sanitize Let_def)
        (simp add: example_fs_def example_timestamp outputDir_def)
    ultimately show ?thesis by (simp add: List.map_filter_simps)
  qed
  have l2: "length [remote_result, inline_result] = 2" by simp
  from saveImages_outcome [where w = example_fs and imgs = "[remote_result, inline_result]"
      and baseFilename = "''my file!''", THEN conjunct1, rule_format, OF m, unfolded l2 f2]
  show "saveImages example_fs [remote_result, inline_result] ''my file!''
     = (Inr [''generated_images/my_file__2025-01-01T00-00-00-000Z_2.png''],
        [(''generated_images/my_file__2025-01-01T00-00-00-000Z_2.png'', From_base64 ''QUJD'')])"
    by simp
  have f1: "List.map_filter (written_file example_fs 1 ''my file!'') (zip [0..<1] [inline_result])
      = [(''generated_images/my_file__2025-01-01T00-00-00-000Z.png'', From_base64 ''QUJD'')]"
  proof -
    have "written_file example_fs 1 ''my file!'' (0, inline_result)
        = Some (''generated_images/my_file__2025-01-01T00-00-00-000Z.png'', From_base64 ''QUJD'')"
      by (simp add: written_file_def c1 image_filename_def example_sanitize Let_def)
        (simp add: example_fs_def example_timestamp outputDir_def)
    then show ?thesis by (simp add: List.map_filter_simps)
  qed
  have l1: "length [inline_result] = 1" by simp
  from saveImages_outcome [where w = example_fs and imgs = "[inline_result]"
      and baseFilename = "''my file!''", THEN conjunct1, rule_format, OF m, unfolded l1 f1]
  show "saveImages example_fs [inline_result] ''my file!''
     = (Inr [''generated_images/my_file__2025-01-01T00-00-00-000Z.png''],
        [(''generated_images/my_file__2025-01-01T00-00-00-000Z.png'', From_base64 ''QUJD'')])"
    by simp
qed

end
